theory Spec2Isabelle
  imports Complex_Main "HOL-Library.Word" "HOL-Library.Multiset"
begin

section \<open>The batched transform-reduce utility (transform\_reduce.h)\<close>

subsection \<open>Data model\<close>

text \<open>
  \<^verbatim>\<open>errorQuda\<close> prints its message and aborts the program; an indexing outside an array or
  a read of a slot that was never written has no defined behaviour in C++. Both are values
  of the error type, so that every run of the model either fails visibly or returns.
\<close>

datatype error =
    errorQuda string int int
  | out_of_bounds

text \<open>\<^verbatim>\<open>static constexpr int n_batch_max = 8\<close>\<close>

definition n_batch_max :: nat where
  "n_batch_max = 8"

text \<open>
  The struct \<^verbatim>\<open>TransformReduceArg\<close>. A \<^verbatim>\<open>const T *\<close> is modelled by the array it
  points to (a list), the fixed-size member arrays \<^verbatim>\<open>v[n_batch_max]\<close> and
  \<^verbatim>\<open>result[n_batch_max]\<close> by lists of \<open>n_batch_max\<close> slots, \<open>None\<close> being a slot that
  has not been written. The base class \<^verbatim>\<open>ReduceArg\<close> (device reduction buffers) plays
  no part in the host path and is left out. The fields carry the prefix \<open>tr_\<close>.
\<close>

record ('t, 'u, 'r) TransformReduceArg =
  tr_v :: "'t list option list"
  tr_n_items :: int
  tr_n_batch :: int
  tr_init :: 'r
  tr_result :: "'r option list"
  tr_h :: "'t \<Rightarrow> 'u"
  tr_r :: "'r \<Rightarrow> 'u \<Rightarrow> 'r"

subsection \<open>Construction\<close>

text \<open>
  \<^verbatim>\<open>for (size_t j = 0; j < v.size(); j++) this->v[j] = v[j];\<close>
\<close>

definition copy_batch_pointers :: "'t list list \<Rightarrow> error + 't list option list" where
  "copy_batch_pointers vs =
     fold (\<lambda>j acc. case acc of
                      Inl e \<Rightarrow> Inl e
                    | Inr a \<Rightarrow> if j < n_batch_max then Inr (a[j := Some (vs ! j)])
                              else Inl out_of_bounds)
          [0..<length vs] (Inr (replicate n_batch_max None))"

text \<open>
  The constructor. \<^verbatim>\<open>n_batch\<close> is an \<^verbatim>\<open>int\<close> initialised from the \<^verbatim>\<open>size_t\<close>
  \<^verbatim>\<open>v.size()\<close>: the conversion keeps the low 32 bits, read as two's complement.
\<close>

definition mk_TransformReduceArg ::
  "'t list list \<Rightarrow> int \<Rightarrow> ('t \<Rightarrow> 'u) \<Rightarrow> 'r \<Rightarrow> ('r \<Rightarrow> 'u \<Rightarrow> 'r)
     \<Rightarrow> error + ('t, 'u, 'r) TransformReduceArg" where
  "mk_TransformReduceArg vs n hh i0 rr =
     (let nb = sint (word_of_nat (length vs) :: 32 word) in
      if nb > int n_batch_max
      then Inl (errorQuda ''Requested batch %d greater than max supported %d'' nb (int n_batch_max))
      else case copy_batch_pointers vs of
             Inl e \<Rightarrow> Inl e
           | Inr ptrs \<Rightarrow>
               Inr \<lparr> tr_v = ptrs, tr_n_items = n, tr_n_batch = nb, tr_init = i0,
                     tr_result = replicate n_batch_max None, tr_h = hh, tr_r = rr \<rparr>)"

subsection \<open>The sequential reduction\<close>

text \<open>
  The inner loop of \<^verbatim>\<open>transform_reduce(Arg &)\<close>:
  \<^verbatim>\<open>for (count_t i = 0; i < arg.n_items; i++) { auto v_ = arg.h(v[i]); r_ = arg.r(r_, v_); }\<close>
  Reading \<^verbatim>\<open>v[i]\<close> past the end of the array is an error.
\<close>

function reduce_items ::
  "('r \<Rightarrow> 'u \<Rightarrow> 'r) \<Rightarrow> ('t \<Rightarrow> 'u) \<Rightarrow> 't list \<Rightarrow> int \<Rightarrow> int \<Rightarrow> 'r \<Rightarrow> error + 'r" where
  "reduce_items rr hh v n i r_acc =
     (if i < n
      then (if 0 \<le> i \<and> nat i < length v
            then reduce_items rr hh v n (i + 1) (rr r_acc (hh (v ! nat i)))
            else Inl out_of_bounds)
      else Inr r_acc)"
  by pat_completeness auto
termination
  by (relation "measure (\<lambda>(rr, hh, v, n, i, r_acc). nat (n - i))") auto

text \<open>
  The outer loop: \<^verbatim>\<open>for (int j = 0; j < arg.n_batch; j++) { auto v = arg.v[j]; ...;
  arg.result[j] = r_; }\<close>
\<close>

function transform_reduce_from ::
  "int \<Rightarrow> ('t, 'u, 'r) TransformReduceArg \<Rightarrow> error + ('t, 'u, 'r) TransformReduceArg" where
  "transform_reduce_from j arg =
     (if j < tr_n_batch arg
      then (if 0 \<le> j \<and> nat j < length (tr_v arg) \<and> nat j < length (tr_result arg)
            then (case tr_v arg ! nat j of
                    None \<Rightarrow> Inl out_of_bounds
                  | Some v \<Rightarrow>
                     (case reduce_items (tr_r arg) (tr_h arg) v (tr_n_items arg) 0 (tr_init arg) of
                        Inl e \<Rightarrow> Inl e
                      | Inr r_acc \<Rightarrow>
                          transform_reduce_from (j + 1)
                            (arg\<lparr>tr_result := (tr_result arg)[nat j := Some r_acc]\<rparr>)))
            else Inl out_of_bounds)
      else Inr arg)"
  by pat_completeness auto
termination
  by (relation "measure (\<lambda>(j, arg). nat (tr_n_batch arg - j))") auto

definition transform_reduce ::
  "('t, 'u, 'r) TransformReduceArg \<Rightarrow> error + ('t, 'u, 'r) TransformReduceArg" where
  "transform_reduce arg = transform_reduce_from 0 arg"

text \<open>
  The host branch of \<^verbatim>\<open>TransformReduce::apply\<close>: build the argument bundle, reduce, and
  copy \<^verbatim>\<open>arg.result[j]\<close> into the caller's \<^verbatim>\<open>result[j]\<close> for \<^verbatim>\<open>j < result.size()\<close>.
  The call of \<^verbatim>\<open>tuneLaunch\<close> before it only selects launch parameters for the device
  branch and is left out.
\<close>

definition copy_results :: "'r option list \<Rightarrow> 'r list \<Rightarrow> error + 'r list" where
  "copy_results res result =
     fold (\<lambda>j acc. case acc of
                      Inl e \<Rightarrow> Inl e
                    | Inr out \<Rightarrow>
                        if j < length res
                        then (case res ! j of None \<Rightarrow> Inl out_of_bounds
                                            | Some x \<Rightarrow> Inr (out[j := x]))
                        else Inl out_of_bounds)
          [0..<length result] (Inr result)"

definition apply_host ::
  "'r list \<Rightarrow> 't list list \<Rightarrow> int \<Rightarrow> ('t \<Rightarrow> 'u) \<Rightarrow> 'r \<Rightarrow> ('r \<Rightarrow> 'u \<Rightarrow> 'r) \<Rightarrow> error + 'r list" where
  "apply_host result vs n hh i0 rr =
     (case mk_TransformReduceArg vs n hh i0 rr of
        Inl e \<Rightarrow> Inl e
      | Inr arg \<Rightarrow>
          (case transform_reduce arg of
             Inl e \<Rightarrow> Inl e
           | Inr arg' \<Rightarrow> copy_results (tr_result arg') result))"

section \<open>The preconditioned twisted-mass stencil (dslash\_twisted\_mass\_preconditioned.cuh)\<close>

subsection \<open>Data model\<close>

text \<open>
  Modelled from the spec: the enum \<^verbatim>\<open>KernelType\<close> is declared outside the given sources.
  The source names \<^verbatim>\<open>INTERIOR_KERNEL\<close> and \<^verbatim>\<open>EXTERIOR_KERNEL_ALL\<close>; the spec adds one
  exterior classification per boundary dimension.
\<close>

datatype KernelType =
    INTERIOR_KERNEL
  | EXTERIOR_KERNEL_DIM int
  | EXTERIOR_KERNEL_ALL

text \<open>
  The base struct (\<^verbatim>\<open>WilsonArg\<close> over \<^verbatim>\<open>DslashArg\<close>) is declared elsewhere; the record
  lists the members the given source reads or writes. \<open>'v\<close> is the full field vector
  (\<^verbatim>\<open>ColorSpinor<real,nColor,4>\<close>), \<open>'h\<close> the half vector, \<open>'l\<close> the link matrix and
  \<open>'dc\<close> the constants handed to the neighbour resolver. An accessor is the function it
  computes: \<open>arg_out arg (x_cb, parity)\<close> is \<^verbatim>\<open>arg.out(x_cb, parity)\<close>, and
  \<open>arg_in_Ghost arg d dir ghost_idx parity\<close> is \<^verbatim>\<open>arg.in.Ghost(d, dir, ghost_idx, parity)\<close>.
  Real scalars are mathematical reals: the rounding of the working precision is not
  modelled, the vector arithmetic being a parameter.
\<close>

record ('v, 'h, 'l, 'dc) DslashArg =
  arg_out :: "int \<times> int \<Rightarrow> 'v"
  arg_in :: "int \<times> int \<Rightarrow> 'v"
  arg_in_Ghost :: "int \<Rightarrow> int \<Rightarrow> int \<Rightarrow> int \<Rightarrow> 'h"
  arg_x :: "int \<times> int \<Rightarrow> 'v"
  arg_U :: "int \<Rightarrow> int \<Rightarrow> int \<Rightarrow> 'l"
  arg_U_Ghost :: "int \<Rightarrow> int \<Rightarrow> int \<Rightarrow> 'l"
  arg_kappa :: real
  arg_parity :: int
  arg_nFace :: int
  arg_dim :: "int \<Rightarrow> int"
  arg_dc :: 'dc
  arg_threads :: int
  arg_t_proj_scale :: real
  twist_a :: real
  twist_b :: real

text \<open>\<^verbatim>\<open>struct TwistedMassArg : WilsonArg<Float,nColor,reconstruct_>\<close>\<close>

record ('v, 'h, 'l, 'dc) TwistedMassArg = "('v, 'h, 'l, 'dc) DslashArg" +
  arg_a :: real
  arg_b :: real
  asymmetric :: bool

text \<open>
  The constructor of \<^verbatim>\<open>TwistedMassArg\<close>. The base constructor \<^verbatim>\<open>WilsonArg(...)\<close> is not
  part of the given source and is the parameter \<open>WilsonArg\<close>; it receives
  \<^verbatim>\<open>xpay ? 1.0 : 0.0\<close> as its \<^verbatim>\<open>kappa\<close>.
\<close>

definition mk_TwistedMassArg ::
  "('f \<Rightarrow> 'f \<Rightarrow> 'g \<Rightarrow> real \<Rightarrow> 'f \<Rightarrow> int \<Rightarrow> bool \<Rightarrow> 'co \<Rightarrow> ('v, 'h, 'l, 'dc) DslashArg)
     \<Rightarrow> 'f \<Rightarrow> 'f \<Rightarrow> 'g \<Rightarrow> real \<Rightarrow> real \<Rightarrow> bool \<Rightarrow> 'f \<Rightarrow> int \<Rightarrow> bool \<Rightarrow> bool \<Rightarrow> 'co
     \<Rightarrow> ('v, 'h, 'l, 'dc) TwistedMassArg" where
  "mk_TwistedMassArg WilsonArg out_fld in_fld U_fld a0 b0 xpay x_fld par dagger asy comm_override =
     (let base = WilsonArg out_fld in_fld U_fld (if xpay then 1 else 0) x_fld par dagger comm_override;
          this = DslashArg.extend base
                   (TwistedMassArg.fields a0 (if dagger then - b0 else b0) asy)
      in if dagger \<and> \<not> asy
         then this\<lparr>twist_a := arg_a this, twist_b := arg_b this\<rparr>
         else this)"

subsection \<open>Collaborators\<close>

text \<open>
  Everything the kernel calls that lives in other headers is a parameter: the coordinate
  and neighbour resolvers, the region predicates, the plain hopping term \<^verbatim>\<open>applyWilson\<close>,
  and the arithmetic of vectors and links. Reference parameters that a callee may change
  are returned: \<open>getCoords\<close> yields \<open>(x_cb, coord, thread_dim)\<close>, \<open>isActive\<close> yields its
  result and the new value of \<^verbatim>\<open>active\<close>, \<open>applyWilson\<close> the new accumulator and
  \<^verbatim>\<open>active\<close>. The template argument of \<^verbatim>\<open>ghostFaceIndex<dir>\<close> comes first.
\<close>

record ('v, 'h, 'l, 'dc) collaborators =
  getCoords :: "KernelType \<Rightarrow> ('v, 'h, 'l, 'dc) TwistedMassArg \<Rightarrow> int \<Rightarrow> int
                  \<Rightarrow> int \<times> (int \<Rightarrow> int) \<times> int"
  getNeighborIndexCB :: "(int \<Rightarrow> int) \<Rightarrow> int \<Rightarrow> int \<Rightarrow> 'dc \<Rightarrow> int"
  ghostFaceIndex :: "int \<Rightarrow> (int \<Rightarrow> int) \<Rightarrow> (int \<Rightarrow> int) \<Rightarrow> int \<Rightarrow> int \<Rightarrow> int"
  isActive :: "KernelType \<Rightarrow> bool \<Rightarrow> int \<Rightarrow> int \<Rightarrow> (int \<Rightarrow> int)
                  \<Rightarrow> ('v, 'h, 'l, 'dc) TwistedMassArg \<Rightarrow> bool \<times> bool"
  doHalo :: "KernelType \<Rightarrow> int \<Rightarrow> bool"
  doBulk :: "KernelType \<Rightarrow> bool"
  isComplete :: "KernelType \<Rightarrow> ('v, 'h, 'l, 'dc) TwistedMassArg \<Rightarrow> (int \<Rightarrow> int) \<Rightarrow> bool"
  applyWilson :: "int \<Rightarrow> int \<Rightarrow> bool \<Rightarrow> KernelType \<Rightarrow> 'v
                  \<Rightarrow> ('v, 'h, 'l, 'dc) TwistedMassArg \<Rightarrow> (int \<Rightarrow> int) \<Rightarrow> int \<Rightarrow> int \<Rightarrow> int
                  \<Rightarrow> int \<Rightarrow> bool \<Rightarrow> 'v \<times> bool"
  Vector_default :: 'v
  plus_v :: "'v \<Rightarrow> 'v \<Rightarrow> 'v"
  real_times_v :: "real \<Rightarrow> 'v \<Rightarrow> 'v"
  complex_times_v :: "complex \<Rightarrow> 'v \<Rightarrow> 'v"
  gamma_v :: "int \<Rightarrow> 'v \<Rightarrow> 'v"
  project :: "int \<Rightarrow> int \<Rightarrow> 'v \<Rightarrow> 'h"
  reconstruct :: "int \<Rightarrow> int \<Rightarrow> 'h \<Rightarrow> 'v"
  real_times_h :: "real \<Rightarrow> 'h \<Rightarrow> 'h"
  link_times_h :: "'l \<Rightarrow> 'h \<Rightarrow> 'h"
  conj_link :: "'l \<Rightarrow> 'l"

subsection \<open>The hopping term premultiplied by the twist\<close>

text \<open>\<^verbatim>\<open>arg.a * (in + complex<real>(0.0,arg.b)*in.gamma(4))\<close>\<close>

definition twist_rotation ::
  "('v, 'h, 'l, 'dc) collaborators \<Rightarrow> real \<Rightarrow> real \<Rightarrow> 'v \<Rightarrow> 'v" where
  "twist_rotation K a0 b0 w =
     real_times_v K a0 (plus_v K w (complex_times_v K (Complex 0 b0) (gamma_v K 4 w)))"

definition their_spinor_parity :: "int \<Rightarrow> int \<Rightarrow> int" where
  "their_spinor_parity nParity par = (if nParity = 2 then 1 - par else 0)"

text \<open>
  \<^verbatim>\<open>ghost\<close> of the forward and of the backward gather. \<^verbatim>\<open>&&\<close> evaluates \<^verbatim>\<open>isActive\<close>,
  which may set \<^verbatim>\<open>active\<close>, only when the coordinate test holds.
\<close>

definition fwd_ghost ::
  "('v, 'h, 'l, 'dc) collaborators \<Rightarrow> KernelType \<Rightarrow> ('v, 'h, 'l, 'dc) TwistedMassArg
     \<Rightarrow> (int \<Rightarrow> int) \<Rightarrow> int \<Rightarrow> int \<Rightarrow> bool \<Rightarrow> bool \<times> bool" where
  "fwd_ghost K kt arg coord thread_dim d active =
     (if coord d + arg_nFace arg \<ge> arg_dim arg d
      then isActive K kt active thread_dim d coord arg
      else (False, active))"

definition bwd_ghost ::
  "('v, 'h, 'l, 'dc) collaborators \<Rightarrow> KernelType \<Rightarrow> ('v, 'h, 'l, 'dc) TwistedMassArg
     \<Rightarrow> (int \<Rightarrow> int) \<Rightarrow> int \<Rightarrow> int \<Rightarrow> bool \<Rightarrow> bool \<times> bool" where
  "bwd_ghost K kt arg coord thread_dim d active =
     (if coord d - arg_nFace arg < 0
      then isActive K kt active thread_dim d coord arg
      else (False, active))"

text \<open>
  The branch taken by
  \<^verbatim>\<open>if ( doHalo<kernel_type>(d) && ghost ) {...} else if ( doBulk<kernel_type>() && !ghost ) {...}\<close>,
  the same in both gathers.
\<close>

datatype gather_path = halo_path | bulk_path | no_path

definition select_path ::
  "('v, 'h, 'l, 'dc) collaborators \<Rightarrow> KernelType \<Rightarrow> int \<Rightarrow> bool \<Rightarrow> gather_path" where
  "select_path K kt d ghost =
     (if doHalo K kt d \<and> ghost then halo_path
      else if doBulk K kt \<and> \<not> ghost then bulk_path
      else no_path)"

text \<open>The forward gather of dimension \<open>d\<close>: the accumulator and \<^verbatim>\<open>active\<close> go in and out.\<close>

definition forward_gather ::
  "('v, 'h, 'l, 'dc) collaborators \<Rightarrow> int \<Rightarrow> bool \<Rightarrow> KernelType
     \<Rightarrow> ('v, 'h, 'l, 'dc) TwistedMassArg \<Rightarrow> (int \<Rightarrow> int) \<Rightarrow> int \<Rightarrow> int \<Rightarrow> int \<Rightarrow> int \<Rightarrow> int
     \<Rightarrow> 'v \<times> bool \<Rightarrow> 'v \<times> bool" where
  "forward_gather K nParity dagger kt arg coord x_cb par idx thread_dim d s =
     (let acc = fst s;
          fwd_idx = getNeighborIndexCB K coord d 1 (arg_dc arg);
          proj_dir = (if dagger then 1 else - 1);
          g = fwd_ghost K kt arg coord thread_dim d (snd s);
          ghost = fst g;
          active = snd g
      in case select_path K kt d ghost of
           halo_path \<Rightarrow>
             (let ghost_idx = (if kt = EXTERIOR_KERNEL_ALL \<and> d \<noteq> thread_dim
                               then ghostFaceIndex K 1 coord (arg_dim arg) d (arg_nFace arg)
                               else idx);
                  U = arg_U arg d x_cb par;
                  in0 = arg_in_Ghost arg d 1 ghost_idx (their_spinor_parity nParity par);
                  in1 = (if d = 3 then real_times_h K (arg_t_proj_scale arg) in0 else in0)
              in (plus_v K acc (reconstruct K d proj_dir (link_times_h K U in1)), active))
         | bulk_path \<Rightarrow>
             (let U = arg_U arg d x_cb par;
                  in0 = arg_in arg (fwd_idx, their_spinor_parity nParity par);
                  in1 = twist_rotation K (arg_a arg) (arg_b arg) in0
              in (plus_v K acc
                    (reconstruct K d proj_dir (link_times_h K U (project K d proj_dir in1))),
                  active))
         | no_path \<Rightarrow> (acc, active))"

text \<open>The backward gather of dimension \<open>d\<close>.\<close>

definition backward_gather ::
  "('v, 'h, 'l, 'dc) collaborators \<Rightarrow> int \<Rightarrow> bool \<Rightarrow> KernelType
     \<Rightarrow> ('v, 'h, 'l, 'dc) TwistedMassArg \<Rightarrow> (int \<Rightarrow> int) \<Rightarrow> int \<Rightarrow> int \<Rightarrow> int \<Rightarrow> int \<Rightarrow> int
     \<Rightarrow> 'v \<times> bool \<Rightarrow> 'v \<times> bool" where
  "backward_gather K nParity dagger kt arg coord x_cb par idx thread_dim d s =
     (let acc = fst s;
          back_idx = getNeighborIndexCB K coord d (- 1) (arg_dc arg);
          gauge_idx = back_idx;
          proj_dir = (if dagger then - 1 else 1);
          g = bwd_ghost K kt arg coord thread_dim d (snd s);
          ghost = fst g;
          active = snd g
      in case select_path K kt d ghost of
           halo_path \<Rightarrow>
             (let ghost_idx = (if kt = EXTERIOR_KERNEL_ALL \<and> d \<noteq> thread_dim
                               then ghostFaceIndex K 0 coord (arg_dim arg) d (arg_nFace arg)
                               else idx);
                  U = arg_U_Ghost arg d ghost_idx (1 - par);
                  in0 = arg_in_Ghost arg d 0 ghost_idx (their_spinor_parity nParity par);
                  in1 = (if d = 3 then real_times_h K (arg_t_proj_scale arg) in0 else in0)
              in (plus_v K acc (reconstruct K d proj_dir (link_times_h K (conj_link K U) in1)),
                  active))
         | bulk_path \<Rightarrow>
             (let U = arg_U arg d gauge_idx (1 - par);
                  in0 = arg_in arg (back_idx, their_spinor_parity nParity par);
                  in1 = twist_rotation K (arg_a arg) (arg_b arg) in0
              in (plus_v K acc
                    (reconstruct K d proj_dir
                       (link_times_h K (conj_link K U) (project K d proj_dir in1))),
                  active))
         | no_path \<Rightarrow> (acc, active))"

text \<open>\<^verbatim>\<open>applyWilsonTM\<close>: \<^verbatim>\<open>for (int d = 0; d<nDim; d++)\<close>, forward then backward.\<close>

definition applyWilsonTM ::
  "('v, 'h, 'l, 'dc) collaborators \<Rightarrow> int \<Rightarrow> int \<Rightarrow> bool \<Rightarrow> KernelType \<Rightarrow> 'v
     \<Rightarrow> ('v, 'h, 'l, 'dc) TwistedMassArg \<Rightarrow> (int \<Rightarrow> int) \<Rightarrow> int \<Rightarrow> int \<Rightarrow> int \<Rightarrow> int \<Rightarrow> bool
     \<Rightarrow> 'v \<times> bool" where
  "applyWilsonTM K nDim nParity dagger kt acc arg coord x_cb par idx thread_dim active =
     fold (\<lambda>d s. backward_gather K nParity dagger kt arg coord x_cb par idx thread_dim d
                   (forward_gather K nParity dagger kt arg coord x_cb par idx thread_dim d s))
          [0..nDim - 1] (acc, active)"

subsection \<open>The per-site operator\<close>

text \<open>
  The gather of \<^verbatim>\<open>twistedMass\<close>:
  \<^verbatim>\<open>if (dagger && !asymmetric) applyWilsonTM<...>(out, ...); else applyWilson<...>(out, ...);\<close>
  on the freshly declared \<^verbatim>\<open>Vector out\<close>.
\<close>

definition gather ::
  "('v, 'h, 'l, 'dc) collaborators \<Rightarrow> int \<Rightarrow> int \<Rightarrow> bool \<Rightarrow> bool \<Rightarrow> KernelType
     \<Rightarrow> ('v, 'h, 'l, 'dc) TwistedMassArg \<Rightarrow> (int \<Rightarrow> int) \<Rightarrow> int \<Rightarrow> int \<Rightarrow> int \<Rightarrow> int \<Rightarrow> bool
     \<Rightarrow> 'v \<times> bool" where
  "gather K nDim nParity dagger asy kt arg coord x_cb par idx thread_dim active =
     (if dagger \<and> \<not> asy
      then applyWilsonTM K nDim nParity dagger kt (Vector_default K) arg coord x_cb par idx
             thread_dim active
      else applyWilson K nDim nParity dagger kt (Vector_default K) arg coord x_cb par idx
             thread_dim active)"

text \<open>
  \<^verbatim>\<open>if (kernel_type != INTERIOR_KERNEL && active) { Vector x = arg.out(x_cb, my_spinor_parity);
  out += x; }\<close>
\<close>

definition partial_merge ::
  "('v, 'h, 'l, 'dc) collaborators \<Rightarrow> KernelType \<Rightarrow> ('v, 'h, 'l, 'dc) TwistedMassArg
     \<Rightarrow> int \<Rightarrow> int \<Rightarrow> bool \<Rightarrow> 'v \<Rightarrow> 'v" where
  "partial_merge K kt arg x_cb my_spinor_parity active acc =
     (if kt \<noteq> INTERIOR_KERNEL \<and> active
      then plus_v K acc (arg_out arg (x_cb, my_spinor_parity))
      else acc)"

text \<open>
  \<^verbatim>\<open>if ( isComplete<kernel_type>(arg, coord) && active ) {
    if (!dagger || asymmetric) out = arg.a * (out + complex<real>(0.0,arg.b)*out.gamma(4));
    if (xpay) { Vector x = arg.x(x_cb, my_spinor_parity); out += x; } }\<close>
\<close>

definition finalize ::
  "('v, 'h, 'l, 'dc) collaborators \<Rightarrow> bool \<Rightarrow> bool \<Rightarrow> bool \<Rightarrow> KernelType
     \<Rightarrow> ('v, 'h, 'l, 'dc) TwistedMassArg \<Rightarrow> (int \<Rightarrow> int) \<Rightarrow> int \<Rightarrow> int \<Rightarrow> bool \<Rightarrow> 'v \<Rightarrow> 'v" where
  "finalize K dagger asy xpay kt arg coord x_cb my_spinor_parity active acc =
     (if isComplete K kt arg coord \<and> active
      then (let acc1 = (if \<not> dagger \<or> asy
                        then twist_rotation K (arg_a arg) (arg_b arg) acc
                        else acc)
            in if xpay then plus_v K acc1 (arg_x arg (x_cb, my_spinor_parity)) else acc1)
      else acc)"

text \<open>
  The state of one call of \<^verbatim>\<open>twistedMass\<close> before its finalize step: the site
  \<open>(x_cb, my_spinor_parity)\<close>, its coordinate, \<^verbatim>\<open>active\<close> after the gather, and the
  accumulator after the partial merge.
\<close>

record 'v site_state =
  st_x_cb :: int
  st_coord :: "int \<Rightarrow> int"
  st_my_spinor_parity :: int
  st_active :: bool
  st_out :: 'v

definition before_finalize ::
  "('v, 'h, 'l, 'dc) collaborators \<Rightarrow> int \<Rightarrow> int \<Rightarrow> bool \<Rightarrow> bool \<Rightarrow> KernelType
     \<Rightarrow> ('v, 'h, 'l, 'dc) TwistedMassArg \<Rightarrow> int \<Rightarrow> int \<Rightarrow> 'v site_state" where
  "before_finalize K nDim nParity dagger asy kt arg idx par =
     (let active0 = (if kt = EXTERIOR_KERNEL_ALL then False else True);
          c = getCoords K kt arg idx par;
          x_cb = fst c;
          coord = fst (snd c);
          thread_dim = snd (snd c);
          my_spinor_parity = (if nParity = 2 then par else 0);
          g = gather K nDim nParity dagger asy kt arg coord x_cb par idx thread_dim active0;
          active = snd g
      in \<lparr> st_x_cb = x_cb, st_coord = coord, st_my_spinor_parity = my_spinor_parity,
           st_active = active,
           st_out = partial_merge K kt arg x_cb my_spinor_parity active (fst g) \<rparr>)"

text \<open>The value \<^verbatim>\<open>out\<close> holds when \<^verbatim>\<open>twistedMass\<close> reaches its write-back.\<close>

definition final_out ::
  "('v, 'h, 'l, 'dc) collaborators \<Rightarrow> int \<Rightarrow> int \<Rightarrow> bool \<Rightarrow> bool \<Rightarrow> bool \<Rightarrow> KernelType
     \<Rightarrow> ('v, 'h, 'l, 'dc) TwistedMassArg \<Rightarrow> int \<Rightarrow> int \<Rightarrow> 'v" where
  "final_out K nDim nParity dagger asy xpay kt arg idx par =
     (let st = before_finalize K nDim nParity dagger asy kt arg idx par
      in finalize K dagger asy xpay kt arg (st_coord st) (st_x_cb st) (st_my_spinor_parity st)
           (st_active st) (st_out st))"

text \<open>
  \<^verbatim>\<open>twistedMass\<close>: the only effect is the write-back
  \<^verbatim>\<open>if (kernel_type != EXTERIOR_KERNEL_ALL || active) arg.out(x_cb, my_spinor_parity) = out;\<close>
  so the call returns the argument bundle with its output field updated.
\<close>

definition twistedMass ::
  "('v, 'h, 'l, 'dc) collaborators \<Rightarrow> int \<Rightarrow> int \<Rightarrow> bool \<Rightarrow> bool \<Rightarrow> bool \<Rightarrow> KernelType
     \<Rightarrow> ('v, 'h, 'l, 'dc) TwistedMassArg \<Rightarrow> int \<Rightarrow> int \<Rightarrow> ('v, 'h, 'l, 'dc) TwistedMassArg" where
  "twistedMass K nDim nParity dagger asy xpay kt arg idx par =
     (let st = before_finalize K nDim nParity dagger asy kt arg idx par;
          acc = final_out K nDim nParity dagger asy xpay kt arg idx par
      in if kt \<noteq> EXTERIOR_KERNEL_ALL \<or> st_active st
         then arg\<lparr>arg_out := (arg_out arg)((st_x_cb st, st_my_spinor_parity st) := acc)\<rparr>
         else arg)"

subsection \<open>Dispatch wrappers\<close>

text \<open>\<^verbatim>\<open>for (int x_cb = 0; x_cb < arg.threads; x_cb++) twistedMass<...>(arg, x_cb, parity);\<close>\<close>

definition volume_loop ::
  "('v, 'h, 'l, 'dc) collaborators \<Rightarrow> int \<Rightarrow> int \<Rightarrow> bool \<Rightarrow> bool \<Rightarrow> bool \<Rightarrow> KernelType
     \<Rightarrow> int \<Rightarrow> ('v, 'h, 'l, 'dc) TwistedMassArg \<Rightarrow> ('v, 'h, 'l, 'dc) TwistedMassArg" where
  "volume_loop K nDim nParity dagger asy xpay kt par arg =
     fold (\<lambda>x_cb a. twistedMass K nDim nParity dagger asy xpay kt a x_cb par)
          [0..arg_threads arg - 1] arg"

text \<open>
  The parity loop of \<^verbatim>\<open>twistedMassCPU\<close> assigns its own counter,
  \<^verbatim>\<open>parity = nParity == 2 ? parity : arg.parity\<close>, before the increment: whether it
  ends depends on \<^verbatim>\<open>nParity\<close> and \<^verbatim>\<open>arg.parity\<close>, so the loop is a partial function and
  \<open>None\<close> is a run that never returns.
\<close>

partial_function (option) parity_loop ::
  "('v, 'h, 'l, 'dc) collaborators \<Rightarrow> int \<Rightarrow> int \<Rightarrow> bool \<Rightarrow> bool \<Rightarrow> bool \<Rightarrow> KernelType
     \<Rightarrow> int \<Rightarrow> ('v, 'h, 'l, 'dc) TwistedMassArg \<Rightarrow> ('v, 'h, 'l, 'dc) TwistedMassArg option" where
  "parity_loop K nDim nParity dagger asy xpay kt par0 arg =
     (if par0 < nParity
      then (let par = (if nParity = 2 then par0 else arg_parity arg)
            in parity_loop K nDim nParity dagger asy xpay kt (par + 1)
                 (volume_loop K nDim nParity dagger asy xpay kt par arg))
      else Some arg)"

definition twistedMassCPU ::
  "('v, 'h, 'l, 'dc) collaborators \<Rightarrow> int \<Rightarrow> int \<Rightarrow> bool \<Rightarrow> bool \<Rightarrow> bool \<Rightarrow> KernelType
     \<Rightarrow> ('v, 'h, 'l, 'dc) TwistedMassArg \<Rightarrow> ('v, 'h, 'l, 'dc) TwistedMassArg option" where
  "twistedMassCPU K nDim nParity dagger asy xpay kt arg =
     parity_loop K nDim nParity dagger asy xpay kt 0 arg"

text \<open>
  One thread of \<^verbatim>\<open>twistedMassGPU\<close>. The thread is identified by its two global indices
  \<open>tx = blockIdx.x*blockDim.x + threadIdx.x\<close> and \<open>tz = blockDim.z*blockIdx.z + threadIdx.z\<close>.
\<close>

definition twistedMassGPU_thread ::
  "('v, 'h, 'l, 'dc) collaborators \<Rightarrow> int \<Rightarrow> int \<Rightarrow> bool \<Rightarrow> bool \<Rightarrow> bool \<Rightarrow> KernelType
     \<Rightarrow> int \<times> int \<Rightarrow> ('v, 'h, 'l, 'dc) TwistedMassArg \<Rightarrow> ('v, 'h, 'l, 'dc) TwistedMassArg" where
  "twistedMassGPU_thread K nDim nParity dagger asy xpay kt t arg =
     (let x_cb = fst t in
      if x_cb \<ge> arg_threads arg then arg
      else (let par = (if nParity = 2 then snd t else arg_parity arg)
            in if par = 0 then twistedMass K nDim nParity dagger asy xpay kt arg x_cb 0
               else if par = 1 then twistedMass K nDim nParity dagger asy xpay kt arg x_cb 1
               else arg))"

text \<open>
  A launch of the kernel over a grid of \<open>gx\<close> by \<open>gz\<close> threads. A thread touches the
  output field only at its own site, so a launch is modelled by the threads running one
  after the other in some order \<open>sched\<close>, any order being allowed.
\<close>

definition launch_grid :: "int \<Rightarrow> int \<Rightarrow> (int \<times> int) list" where
  "launch_grid gx gz = List.product [0..gx - 1] [0..gz - 1]"

definition twistedMassGPU ::
  "('v, 'h, 'l, 'dc) collaborators \<Rightarrow> int \<Rightarrow> int \<Rightarrow> bool \<Rightarrow> bool \<Rightarrow> bool \<Rightarrow> KernelType
     \<Rightarrow> (int \<times> int) list \<Rightarrow> ('v, 'h, 'l, 'dc) TwistedMassArg
     \<Rightarrow> ('v, 'h, 'l, 'dc) TwistedMassArg" where
  "twistedMassGPU K nDim nParity dagger asy xpay kt sched arg =
     fold (twistedMassGPU_thread K nDim nParity dagger asy xpay kt) sched arg"

text \<open>
  The site a call of \<^verbatim>\<open>twistedMass\<close> writes, if it writes at all: the write-back is
  guarded by \<^verbatim>\<open>kernel_type != EXTERIOR_KERNEL_ALL || active\<close>.
\<close>

definition write_site ::
  "('v, 'h, 'l, 'dc) collaborators \<Rightarrow> int \<Rightarrow> int \<Rightarrow> bool \<Rightarrow> bool \<Rightarrow> KernelType
     \<Rightarrow> ('v, 'h, 'l, 'dc) TwistedMassArg \<Rightarrow> int \<Rightarrow> int \<Rightarrow> (int \<times> int) option" where
  "write_site K nDim nParity dagger asy kt arg idx par =
     (let st = before_finalize K nDim nParity dagger asy kt arg idx par
      in if kt \<noteq> EXTERIOR_KERNEL_ALL \<or> st_active st
         then Some (st_x_cb st, st_my_spinor_parity st)
         else None)"

text \<open>
  The condition of the finalize step, \<^verbatim>\<open>isComplete<kernel_type>(arg, coord) && active\<close>, for
  the call of \<^verbatim>\<open>twistedMass\<close> at \<open>(idx, parity)\<close>.
\<close>

definition completes ::
  "('v, 'h, 'l, 'dc) collaborators \<Rightarrow> int \<Rightarrow> int \<Rightarrow> bool \<Rightarrow> bool \<Rightarrow> KernelType
     \<Rightarrow> ('v, 'h, 'l, 'dc) TwistedMassArg \<Rightarrow> int \<Rightarrow> int \<Rightarrow> bool" where
  "completes K nDim nParity dagger asy kt arg idx par =
     (let st = before_finalize K nDim nParity dagger asy kt arg idx par
      in isComplete K kt arg (st_coord st) \<and> st_active st)"

text \<open>
  The passes of the operator are launched by callers outside the given sources, so a run of
  the operator is a parameter: the list of the calls of \<^verbatim>\<open>twistedMass\<close> (kernel type, thread
  index, parity) in the order they are made, each on the argument bundle the one before
  left.
\<close>

definition run_calls ::
  "('v, 'h, 'l, 'dc) collaborators \<Rightarrow> int \<Rightarrow> int \<Rightarrow> bool \<Rightarrow> bool \<Rightarrow> bool
     \<Rightarrow> (KernelType \<times> int \<times> int) list
     \<Rightarrow> ('v, 'h, 'l, 'dc) TwistedMassArg \<Rightarrow> ('v, 'h, 'l, 'dc) TwistedMassArg" where
  "run_calls K nDim nParity dagger asy xpay calls arg =
     fold (\<lambda>c a. twistedMass K nDim nParity dagger asy xpay (fst c) a (fst (snd c)) (snd (snd c)))
          calls arg"

text \<open>
  No call of the list writes the site that an earlier call of the list completed: the
  finalize step is the last write to its site.
\<close>

primrec final_writes ::
  "('v, 'h, 'l, 'dc) collaborators \<Rightarrow> int \<Rightarrow> int \<Rightarrow> bool \<Rightarrow> bool
     \<Rightarrow> ('v, 'h, 'l, 'dc) TwistedMassArg \<Rightarrow> (KernelType \<times> int \<times> int) list \<Rightarrow> bool" where
  "final_writes K nDim nParity dagger asy arg [] = True"
| "final_writes K nDim nParity dagger asy arg (c # cs) =
     ((completes K nDim nParity dagger asy (fst c) arg (fst (snd c)) (snd (snd c)) \<longrightarrow>
         (\<forall>c' \<in> set cs.
            write_site K nDim nParity dagger asy (fst c') arg (fst (snd c')) (snd (snd c'))
              \<noteq> write_site K nDim nParity dagger asy (fst c) arg (fst (snd c)) (snd (snd c))))
      \<and> final_writes K nDim nParity dagger asy arg cs)"

text \<open>
  What one thread of the kernel does to the output field \<open>f\<close>, the rest of the argument
  bundle being that of \<open>arg\<close>.
\<close>

definition thread_effect ::
  "('v, 'h, 'l, 'dc) collaborators \<Rightarrow> int \<Rightarrow> int \<Rightarrow> bool \<Rightarrow> bool \<Rightarrow> bool \<Rightarrow> KernelType
     \<Rightarrow> ('v, 'h, 'l, 'dc) TwistedMassArg \<Rightarrow> int \<times> int \<Rightarrow> (int \<times> int \<Rightarrow> 'v) \<Rightarrow> int \<times> int \<Rightarrow> 'v" where
  "thread_effect K nDim nParity dagger asy xpay kt arg t f =
     arg_out (twistedMassGPU_thread K nDim nParity dagger asy xpay kt t (arg\<lparr>arg_out := f\<rparr>))"

section \<open>A reference instance: one colour, one spin component, a 4 x 4 x 4 x 4 local lattice\<close>

text \<open>
  The theorems below hold for every collaborator. To run the kernel on concrete sites the
  collaborators are instantiated on a local lattice of extent 4 in each dimension, split
  from its neighbours in all four (every face is a halo face), with \<^verbatim>\<open>nFace = 1\<close>.
\<close>

text \<open>
  Modelled from the spec: \<^verbatim>\<open>doHalo<kernel_type>(d)\<close> and \<^verbatim>\<open>doBulk<kernel_type>()\<close> are
  defined outside the given sources. The interior classification needs no halo access and
  processes the bulk data; an exterior classification of one dimension processes the halo
  data of that dimension only, the fused one of all dimensions; no exterior classification
  processes bulk data.
\<close>

fun region_doHalo :: "KernelType \<Rightarrow> int \<Rightarrow> bool" where
  "region_doHalo INTERIOR_KERNEL d = False"
| "region_doHalo (EXTERIOR_KERNEL_DIM k) d = (d = k)"
| "region_doHalo EXTERIOR_KERNEL_ALL d = True"

fun region_doBulk :: "KernelType \<Rightarrow> bool" where
  "region_doBulk INTERIOR_KERNEL = True"
| "region_doBulk (EXTERIOR_KERNEL_DIM k) = False"
| "region_doBulk EXTERIOR_KERNEL_ALL = False"

text \<open>
  Even-odd site numbering of the local lattice: the checkerboard index counts the sites
  of one parity along dimension 0 first; the coordinate in dimension 0 is fixed by the
  parity of the site.
\<close>

definition demo_coord :: "int \<Rightarrow> int \<Rightarrow> int \<Rightarrow> int" where
  "demo_coord idx par d =
     (let x1 = (idx div 2) mod 4; x2 = (idx div 8) mod 4; x3 = (idx div 32) mod 4
      in if d = 0 then 2 * (idx mod 2) + (x1 + x2 + x3 + par) mod 2
         else if d = 1 then x1
         else if d = 2 then x2
         else x3)"

definition demo_index :: "(int \<Rightarrow> int) \<Rightarrow> int" where
  "demo_index c = c 0 div 2 + 2 * c 1 + 8 * c 2 + 32 * c 3"

definition on_face :: "('v, 'h, 'l, 'dc) TwistedMassArg \<Rightarrow> (int \<Rightarrow> int) \<Rightarrow> int \<Rightarrow> bool" where
  "on_face arg coord d =
     (coord d + arg_nFace arg \<ge> arg_dim arg d \<or> coord d - arg_nFace arg < 0)"

text \<open>
  Modelled from the spec: \<^verbatim>\<open>isComplete<kernel_type>(arg, coord)\<close> is defined outside the
  given sources; it tells whether the full neighbour set of the site is resolved by this
  pass. With the exterior passes run in the order of the dimensions, a site is complete
  in the interior pass when it lies on no face, in the pass of dimension \<open>k\<close> when it lies
  on no face of a later dimension, and always in the fused pass.
\<close>

fun demo_isComplete ::
  "KernelType \<Rightarrow> ('v, 'h, 'l, 'dc) TwistedMassArg \<Rightarrow> (int \<Rightarrow> int) \<Rightarrow> bool" where
  "demo_isComplete INTERIOR_KERNEL arg coord = (\<forall>d \<in> set [0..3]. \<not> on_face arg coord d)"
| "demo_isComplete (EXTERIOR_KERNEL_DIM k) arg coord =
     (\<forall>d \<in> set [k + 1..3]. \<not> on_face arg coord d)"
| "demo_isComplete EXTERIOR_KERNEL_ALL arg coord = True"

text \<open>
  Modelled from the spec: the coordinate and neighbour resolvers, \<^verbatim>\<open>isActive\<close> and the
  arithmetic of \<^verbatim>\<open>ColorSpinor\<close> and \<^verbatim>\<open>Matrix\<close> are defined outside the given sources;
  the instance follows their interfaces. A thread resolves to the site of its own index;
  every face being a halo face, \<^verbatim>\<open>isActive\<close> answers yes and sets \<^verbatim>\<open>active\<close>, except in
  the fused pass for a dimension above the thread's own. Vectors, half vectors and links
  are single complex numbers, so projection and reconstruction are the identity, and
  \<^verbatim>\<open>gamma(4)\<close> is the involution \<open>w \<mapsto> - w\<close>. \<^verbatim>\<open>applyWilson\<close> is filled in below.
\<close>

definition demo_base :: "(complex, complex, complex, unit) collaborators" where
  "demo_base =
     \<lparr> getCoords = (\<lambda>kt arg idx par. (idx, demo_coord idx par, 3)),
       getNeighborIndexCB = (\<lambda>coord d dir dc. demo_index (coord(d := (coord d + dir) mod 4))),
       ghostFaceIndex = (\<lambda>dir coord dims d nFace.
          (coord ((d + 1) mod 4) + 4 * coord ((d + 2) mod 4) + 16 * coord ((d + 3) mod 4)) div 2),
       isActive = (\<lambda>kt active thread_dim d coord arg.
          if kt = EXTERIOR_KERNEL_ALL \<and> thread_dim < d then (False, active) else (True, True)),
       doHalo = region_doHalo,
       doBulk = region_doBulk,
       isComplete = demo_isComplete,
       applyWilson = (\<lambda>nDim nParity dagger kt acc arg coord x_cb par idx thread_dim active.
          (acc, active)),
       Vector_default = 0,
       plus_v = (+),
       real_times_v = (\<lambda>r w. of_real r * w),
       complex_times_v = (*),
       gamma_v = (\<lambda>n w. - w),
       project = (\<lambda>d s w. w),
       reconstruct = (\<lambda>d s w. w),
       real_times_h = (\<lambda>r w. of_real r * w),
       link_times_h = (*),
       conj_link = cnj \<rparr>"

text \<open>
  The plain hopping term of the instance is the twisted one at \<open>a = 1\<close>, \<open>b = 0\<close>, where
  the pre-rotation is the identity.
\<close>

definition demo :: "(complex, complex, complex, unit) collaborators" where
  "demo = demo_base
     \<lparr> applyWilson := (\<lambda>nDim nParity dagger kt acc arg.
          applyWilsonTM demo_base nDim nParity dagger kt acc (arg\<lparr>arg_a := 1, arg_b := 0\<rparr>)) \<rparr>"

text \<open>
  A field is its local accessor paired with its halo accessor. The base constructor of the
  instance stores the accessors, the lattice extents and a checkerboard volume of 128.
\<close>

definition demo_WilsonArg ::
  "(int \<times> int \<Rightarrow> complex) \<times> (int \<Rightarrow> int \<Rightarrow> int \<Rightarrow> int \<Rightarrow> complex)
     \<Rightarrow> (int \<times> int \<Rightarrow> complex) \<times> (int \<Rightarrow> int \<Rightarrow> int \<Rightarrow> int \<Rightarrow> complex)
     \<Rightarrow> (int \<Rightarrow> int \<Rightarrow> int \<Rightarrow> complex) \<times> (int \<Rightarrow> int \<Rightarrow> int \<Rightarrow> complex)
     \<Rightarrow> real
     \<Rightarrow> (int \<times> int \<Rightarrow> complex) \<times> (int \<Rightarrow> int \<Rightarrow> int \<Rightarrow> int \<Rightarrow> complex)
     \<Rightarrow> int \<Rightarrow> bool \<Rightarrow> unit \<Rightarrow> (complex, complex, complex, unit) DslashArg" where
  "demo_WilsonArg out_fld in_fld U_fld kappa0 x_fld par dagger comm_override =
     \<lparr> arg_out = fst out_fld, arg_in = fst in_fld, arg_in_Ghost = snd in_fld,
       arg_x = fst x_fld, arg_U = fst U_fld, arg_U_Ghost = snd U_fld,
       arg_kappa = kappa0, arg_parity = par, arg_nFace = 1, arg_dim = (\<lambda>d. 4),
       arg_dc = (), arg_threads = 128, arg_t_proj_scale = 2,
       twist_a = 0, twist_b = 0 \<rparr>"

text \<open>
  Argument bundles of the instance: output field 100 everywhere, input field 1 with halo
  value 5, links 2 with halo value 3, pass-through field 7, \<open>a = 1\<close>, configured twist
  \<open>1/2\<close>, single parity 0.
\<close>

definition demo_arg :: "bool \<Rightarrow> bool \<Rightarrow> bool \<Rightarrow> (complex, complex, complex, unit) TwistedMassArg" where
  "demo_arg xpay dagger asy =
     mk_TwistedMassArg demo_WilsonArg
       (\<lambda>s. 100, \<lambda>d dir i p. 0) (\<lambda>s. 1, \<lambda>d dir i p. 5) (\<lambda>d i p. 2, \<lambda>d i p. 3)
       1 (1 / 2) xpay (\<lambda>s. 7, \<lambda>d dir i p. 0) 0 dagger asy ()"

section \<open>Properties of the transform-reduce utility\<close>

lemma fold_copy_Inl:
  "fold (\<lambda>j acc. case acc of Inl e \<Rightarrow> Inl e
                  | Inr a \<Rightarrow> if j < n_batch_max then Inr (a[j := Some ((vs :: 't list list) ! j)])
                            else Inl out_of_bounds) js (Inl e) = Inl e"
  by (induction js) simp_all

lemma fold_copy_prefix:
  "k \<le> length vs \<Longrightarrow> k \<le> n_batch_max \<Longrightarrow>
   fold (\<lambda>j acc. case acc of Inl e \<Rightarrow> Inl e
                  | Inr a \<Rightarrow> if j < n_batch_max then Inr (a[j := Some ((vs :: 't list list) ! j)])
                            else Inl out_of_bounds) [0..<k] (Inr (replicate n_batch_max None))
   = Inr (map Some (take k vs) @ replicate (n_batch_max - k) None)"
proof (induction k)
  case 0
  then show ?case by simp
next
  case (Suc k)
  have rep: "replicate (n_batch_max - k) (None :: 't list option)
               = None # replicate (n_batch_max - Suc k) None"
    using Suc.prems by (cases "n_batch_max - k") (simp_all add: Suc_diff_Suc)
  have upd: "(map Some (take k vs) @ replicate (n_batch_max - k) None)[k := Some (vs ! k)]
               = map Some (take (Suc k) vs) @ replicate (n_batch_max - Suc k) None"
    using Suc.prems by (simp add: rep list_update_append take_Suc_conv_app_nth)
  from Suc show ?case by (simp add: upd)
qed

lemma copy_batch_pointers_ok:
  "length vs \<le> n_batch_max \<Longrightarrow>
   copy_batch_pointers vs = Inr (map Some vs @ replicate (n_batch_max - length vs) None)"
  unfolding copy_batch_pointers_def using fold_copy_prefix [of "length vs" vs] by simp

lemma copy_batch_pointers_overflow:
  assumes "n_batch_max < length vs"
  shows "copy_batch_pointers vs = Inl out_of_bounds"
proof -
  have split: "[0..<length vs] = [0..<n_batch_max] @ n_batch_max # [Suc n_batch_max..<length vs]"
    using assms by (metis le_add_diff_inverse less_imp_le_nat upt_add_eq_append upt_conv_Cons zero_le)
  show ?thesis
    unfolding copy_batch_pointers_def split
    using assms fold_copy_prefix [of n_batch_max vs]
    by (simp add: fold_copy_Inl)
qed

lemma reduce_items_foldl:
  "0 \<le> i \<Longrightarrow> n \<le> int (length v) \<Longrightarrow>
   reduce_items rr hh v n i acc
     = Inr (foldl (\<lambda>a x. rr a (hh x)) acc (take (nat (n - i)) (drop (nat i) v)))"
proof (induction rr hh v n i acc rule: reduce_items.induct)
  case (1 rr hh v n i r_acc)
  show ?case
  proof (cases "i < n")
    case True
    then have lt: "nat i < length v" using "1.prems" by linarith
    have step: "take (nat (n - i)) (drop (nat i) v)
                  = v ! nat i # take (nat (n - (i + 1))) (drop (nat (i + 1)) v)"
    proof -
      have "nat (n - i) = Suc (nat (n - (i + 1)))" using True by linarith
      moreover have "drop (nat i) v = v ! nat i # drop (Suc (nat i)) v"
        using lt by (simp add: Cons_nth_drop_Suc)
      moreover have "nat (i + 1) = Suc (nat i)" using "1.prems" by linarith
      ultimately show ?thesis by simp
    qed
    have "reduce_items rr hh v n i r_acc
            = reduce_items rr hh v n (i + 1) (rr r_acc (hh (v ! nat i)))"
      using True lt "1.prems" by simp
    also have "\<dots> = Inr (foldl (\<lambda>a x. rr a (hh x)) (rr r_acc (hh (v ! nat i)))
                        (take (nat (n - (i + 1))) (drop (nat (i + 1)) v)))"
      using "1.IH" True lt "1.prems" by simp
    finally show ?thesis by (simp add: step)
  next
    case False
    then show ?thesis by simp
  qed
qed


lemma transform_reduce_from_correct:
  "0 \<le> j \<Longrightarrow> tr_n_batch arg \<le> int (length (tr_v arg)) \<Longrightarrow>
   length (tr_result arg) = length (tr_v arg) \<Longrightarrow>
   (\<forall>k. j \<le> int k \<and> int k < tr_n_batch arg \<longrightarrow>
        (\<exists>v. tr_v arg ! k = Some v \<and> tr_n_items arg \<le> int (length v))) \<Longrightarrow>
   \<exists>arg'. transform_reduce_from j arg = Inr arg' \<and>
          length (tr_result arg') = length (tr_result arg) \<and>
          (\<forall>k < length (tr_result arg).
             tr_result arg' ! k =
               (if j \<le> int k \<and> int k < tr_n_batch arg
                then map_option (\<lambda>v. foldl (\<lambda>a x. tr_r arg a (tr_h arg x)) (tr_init arg)
                                        (take (nat (tr_n_items arg)) v)) (tr_v arg ! k)
                else tr_result arg ! k))"
proof (induction j arg rule: transform_reduce_from.induct)
  case (1 j arg)
  show ?case
  proof (cases "j < tr_n_batch arg")
    case False
    then show ?thesis by auto
  next
    case True
    with "1.prems" have jb: "nat j < length (tr_v arg)" "nat j < length (tr_result arg)"
      by linarith+
    from "1.prems"(1,4) True obtain v where
      v: "tr_v arg ! nat j = Some v" and nv: "tr_n_items arg \<le> int (length v)"
      by (metis int_nat_eq order_refl)
    define r_acc where
      "r_acc = foldl (\<lambda>a x. tr_r arg a (tr_h arg x)) (tr_init arg) (take (nat (tr_n_items arg)) v)"
    have red: "reduce_items (tr_r arg) (tr_h arg) v (tr_n_items arg) 0 (tr_init arg) = Inr r_acc"
      using reduce_items_foldl [of 0 "tr_n_items arg" v "tr_r arg" "tr_h arg" "tr_init arg"] nv
      by (simp add: r_acc_def)
    define arg1 where "arg1 = arg\<lparr>tr_result := (tr_result arg)[nat j := Some r_acc]\<rparr>"
    have unfold: "transform_reduce_from j arg = transform_reduce_from (j + 1) arg1"
      using True jb "1.prems"(1) v red by (simp add: arg1_def)
    have "\<exists>arg'. transform_reduce_from (j + 1) arg1 = Inr arg' \<and>
          length (tr_result arg') = length (tr_result arg1) \<and>
          (\<forall>k < length (tr_result arg1).
             tr_result arg' ! k =
               (if j + 1 \<le> int k \<and> int k < tr_n_batch arg1
                then map_option (\<lambda>v. foldl (\<lambda>a x. tr_r arg1 a (tr_h arg1 x)) (tr_init arg1)
                                        (take (nat (tr_n_items arg1)) v)) (tr_v arg1 ! k)
                else tr_result arg1 ! k))"
      unfolding arg1_def
    proof (rule "1.IH" [OF True _ v red])
      show "0 \<le> j \<and> nat j < length (tr_v arg) \<and> nat j < length (tr_result arg)"
        using jb "1.prems"(1) by simp
      show "0 \<le> j + 1" using "1.prems"(1) by simp
      show "tr_n_batch (arg\<lparr>tr_result := (tr_result arg)[nat j := Some r_acc]\<rparr>)
              \<le> int (length (tr_v (arg\<lparr>tr_result := (tr_result arg)[nat j := Some r_acc]\<rparr>)))"
        using "1.prems"(2) by simp
      show "length (tr_result (arg\<lparr>tr_result := (tr_result arg)[nat j := Some r_acc]\<rparr>))
              = length (tr_v (arg\<lparr>tr_result := (tr_result arg)[nat j := Some r_acc]\<rparr>))"
        using "1.prems"(3) by simp
      show "\<forall>k. j + 1 \<le> int k \<and>
                 int k < tr_n_batch (arg\<lparr>tr_result := (tr_result arg)[nat j := Some r_acc]\<rparr>) \<longrightarrow>
              (\<exists>v. tr_v (arg\<lparr>tr_result := (tr_result arg)[nat j := Some r_acc]\<rparr>) ! k = Some v \<and>
                   tr_n_items (arg\<lparr>tr_result := (tr_result arg)[nat j := Some r_acc]\<rparr>)
                     \<le> int (length v))"
        using "1.prems"(4) by simp
    qed
    then obtain arg' where
      run: "transform_reduce_from (j + 1) arg1 = Inr arg'" and
      len: "length (tr_result arg') = length (tr_result arg1)" and
      res: "\<forall>k < length (tr_result arg1).
             tr_result arg' ! k =
               (if j + 1 \<le> int k \<and> int k < tr_n_batch arg1
                then map_option (\<lambda>v. foldl (\<lambda>a x. tr_r arg1 a (tr_h arg1 x)) (tr_init arg1)
                                        (take (nat (tr_n_items arg1)) v)) (tr_v arg1 ! k)
                else tr_result arg1 ! k)"
      by blast
    have "\<forall>k < length (tr_result arg).
             tr_result arg' ! k =
               (if j \<le> int k \<and> int k < tr_n_batch arg
                then map_option (\<lambda>v. foldl (\<lambda>a x. tr_r arg a (tr_h arg x)) (tr_init arg)
                                        (take (nat (tr_n_items arg)) v)) (tr_v arg ! k)
                else tr_result arg ! k)"
    proof (intro allI impI)
      fix k assume k: "k < length (tr_result arg)"
      show "tr_result arg' ! k =
               (if j \<le> int k \<and> int k < tr_n_batch arg
                then map_option (\<lambda>v. foldl (\<lambda>a x. tr_r arg a (tr_h arg x)) (tr_init arg)
                                        (take (nat (tr_n_items arg)) v)) (tr_v arg ! k)
                else tr_result arg ! k)"
      proof (cases "int k = j")
        case True
        then have "k = nat j" by simp
        then show ?thesis
          using res k jb v \<open>j < tr_n_batch arg\<close> \<open>int k = j\<close>
          by (simp add: arg1_def r_acc_def)
      next
        case False
        then have "nat j \<noteq> k" using "1.prems"(1) by auto
        moreover have "(j + 1 \<le> int k) = (j \<le> int k)" using False by linarith
        ultimately show ?thesis
          using res k by (simp add: arg1_def)
      qed
    qed
    with run len unfold show ?thesis by (simp add: arg1_def)
  qed
qed


lemma sint_batch_count:
  "length vs < 2 ^ 31 \<Longrightarrow> sint (word_of_nat (length vs) :: 32 word) = int (length vs)"
proof -
  assume "length vs < 2 ^ 31"
  then have "int (length vs) < int (2 ^ 31)" by (simp only: of_nat_less_iff)
  then have "int (length vs) < 2 ^ 31" by simp
  then have "signed_take_bit 31 (int (length vs)) = int (length vs)"
    by (intro signed_take_bit_int_eq_self) simp_all
  then show ?thesis by (simp add: signed_of_nat)
qed

lemma mk_TransformReduceArg_accepts:
  assumes "length vs \<le> n_batch_max"
  shows "mk_TransformReduceArg vs n hh i0 rr =
           Inr \<lparr> tr_v = map Some vs @ replicate (n_batch_max - length vs) None,
                 tr_n_items = n, tr_n_batch = int (length vs), tr_init = i0,
                 tr_result = replicate n_batch_max None, tr_h = hh, tr_r = rr \<rparr>"
proof -
  have "length vs < 2 ^ 31" using assms by (simp add: n_batch_max_def)
  then have "sint (word_of_nat (length vs) :: 32 word) = int (length vs)"
    by (rule sint_batch_count)
  then show ?thesis
    using assms by (simp add: mk_TransformReduceArg_def copy_batch_pointers_ok)
qed

lemma mk_TransformReduceArg_Inr_length:
  assumes "mk_TransformReduceArg vs n hh i0 rr = Inr arg"
  shows "length vs \<le> n_batch_max"
proof (rule ccontr)
  assume "\<not> length vs \<le> n_batch_max"
  then have "copy_batch_pointers vs = Inl out_of_bounds"
    by (simp add: copy_batch_pointers_overflow)
  then show False
    using assms by (simp add: mk_TransformReduceArg_def Let_def split: if_splits)
qed

text \<open>
  C9. A batch count above \<open>n_batch_max = 8\<close> makes the constructor of the argument bundle
  fail with \<^verbatim>\<open>errorQuda\<close>, and the host driver then fails with the same error without
  producing any result; a batch count of at most 8 is accepted, and every batch pointer is
  found in the bundle. The count is the \<^verbatim>\<open>int\<close> read from \<^verbatim>\<open>v.size()\<close>, so the
  statement is for sizes an \<^verbatim>\<open>int\<close> can hold.
\<close>

theorem batch_limit_enforced:
  assumes "length vs < 2 ^ 31"
  shows "(n_batch_max < length vs \<longrightarrow>
            mk_TransformReduceArg vs n hh i0 rr =
              Inl (errorQuda ''Requested batch %d greater than max supported %d''
                     (int (length vs)) (int n_batch_max)) \<and>
            apply_host result vs n hh i0 rr =
              Inl (errorQuda ''Requested batch %d greater than max supported %d''
                     (int (length vs)) (int n_batch_max)))
       \<and> (length vs \<le> n_batch_max \<longrightarrow>
            (\<exists>arg. mk_TransformReduceArg vs n hh i0 rr = Inr arg \<and>
                   tr_n_batch arg = int (length vs) \<and>
                   (\<forall>j < length vs. tr_v arg ! j = Some (vs ! j))))"
proof (intro conjI impI)
  assume big: "n_batch_max < length vs"
  have nb: "sint (word_of_nat (length vs) :: 32 word) = int (length vs)"
    using assms by (rule sint_batch_count)
  show ctor: "mk_TransformReduceArg vs n hh i0 rr =
          Inl (errorQuda ''Requested batch %d greater than max supported %d''
                 (int (length vs)) (int n_batch_max))"
    using big by (simp add: mk_TransformReduceArg_def nb)
  show "apply_host result vs n hh i0 rr =
          Inl (errorQuda ''Requested batch %d greater than max supported %d''
                 (int (length vs)) (int n_batch_max))"
    by (simp add: apply_host_def ctor)
next
  assume small: "length vs \<le> n_batch_max"
  show "\<exists>arg. mk_TransformReduceArg vs n hh i0 rr = Inr arg \<and>
              tr_n_batch arg = int (length vs) \<and>
              (\<forall>j < length vs. tr_v arg ! j = Some (vs ! j))"
    by (simp add: mk_TransformReduceArg_accepts [OF small] nth_append)
qed

theorem batch_limit_enforced_witness:
  "mk_TransformReduceArg (replicate 9 [1::int]) 1 (\<lambda>x. x) (0::int) (+) =
     Inl (errorQuda ''Requested batch %d greater than max supported %d'' 9 8)
   \<and> apply_host [0, 0, 0, 0, 0, 0, 0, 0, 0] (replicate 9 [1::int]) 1 (\<lambda>x. x) (0::int) (+) =
     Inl (errorQuda ''Requested batch %d greater than max supported %d'' 9 8)
   \<and> (\<exists>arg. mk_TransformReduceArg [[1, 2], [3, 4::int]] 2 (\<lambda>x. x) (0::int) (+) = Inr arg \<and>
            tr_n_batch arg = 2 \<and> tr_v arg ! 0 = Some [1, 2] \<and> tr_v arg ! 1 = Some [3, 4])"
  using batch_limit_enforced [of "replicate 9 [1::int]" 1 "\<lambda>x. x" 0 "(+)" "[0, 0, 0, 0, 0, 0, 0, 0, 0]"]
        batch_limit_enforced [of "[[1, 2], [3, 4::int]]" 2 "\<lambda>x. x" 0 "(+)" "[]"]
  by (fastforce simp: n_batch_max_def less_Suc_eq)

text \<open>
  C10. On a bundle built by the constructor, with every batch holding at least \<open>n_items\<close>
  elements, the sequential \<^verbatim>\<open>transform_reduce\<close> returns, and \<open>result[j]\<close> is the left fold
  of the reducer over \<open>h(v[j][0]), ..., h(v[j][n_items-1])\<close> from \<open>init\<close>, for every batch
  \<open>j\<close> on its own; with no items it is \<open>init\<close>.
\<close>

theorem transform_reduce_is_fold:
  assumes "mk_TransformReduceArg vs n hh i0 rr = Inr arg"
      and "\<forall>j < length vs. n \<le> int (length (vs ! j))"
  shows "\<exists>arg'. transform_reduce arg = Inr arg' \<and>
           (\<forall>j < length vs.
              tr_result arg' ! j = Some (foldl rr i0 (map hh (take (nat n) (vs ! j))))) \<and>
           (n \<le> 0 \<longrightarrow> (\<forall>j < length vs. tr_result arg' ! j = Some i0))"
proof -
  have small: "length vs \<le> n_batch_max"
    using assms(1) by (rule mk_TransformReduceArg_Inr_length)
  have arg: "arg = \<lparr> tr_v = map Some vs @ replicate (n_batch_max - length vs) None,
                 tr_n_items = n, tr_n_batch = int (length vs), tr_init = i0,
                 tr_result = replicate n_batch_max None, tr_h = hh, tr_r = rr \<rparr>"
    using assms(1) mk_TransformReduceArg_accepts [OF small, of n hh i0 rr] by simp
  have pre: "\<forall>k. 0 \<le> int k \<and> int k < tr_n_batch arg \<longrightarrow>
               (\<exists>v. tr_v arg ! k = Some v \<and> tr_n_items arg \<le> int (length v))"
    using assms(2) by (simp add: arg nth_append)
  have "\<exists>arg'. transform_reduce_from 0 arg = Inr arg' \<and>
          length (tr_result arg') = length (tr_result arg) \<and>
          (\<forall>k < length (tr_result arg).
             tr_result arg' ! k =
               (if 0 \<le> int k \<and> int k < tr_n_batch arg
                then map_option (\<lambda>v. foldl (\<lambda>a x. tr_r arg a (tr_h arg x)) (tr_init arg)
                                        (take (nat (tr_n_items arg)) v)) (tr_v arg ! k)
                else tr_result arg ! k))"
    using pre small by (intro transform_reduce_from_correct) (simp_all add: arg)
  then obtain arg' where
    run: "transform_reduce_from 0 arg = Inr arg'" and
    res: "\<forall>k < length (tr_result arg).
             tr_result arg' ! k =
               (if 0 \<le> int k \<and> int k < tr_n_batch arg
                then map_option (\<lambda>v. foldl (\<lambda>a x. tr_r arg a (tr_h arg x)) (tr_init arg)
                                        (take (nat (tr_n_items arg)) v)) (tr_v arg ! k)
                else tr_result arg ! k)"
    by blast
  have each: "\<forall>j < length vs.
              tr_result arg' ! j = Some (foldl rr i0 (map hh (take (nat n) (vs ! j))))"
  proof (intro allI impI)
    fix j assume j: "j < length vs"
    then have "j < length (tr_result arg)" using small by (simp add: arg)
    with res j show "tr_result arg' ! j = Some (foldl rr i0 (map hh (take (nat n) (vs ! j))))"
      by (simp add: arg nth_append foldl_map)
  qed
  then have "n \<le> 0 \<longrightarrow> (\<forall>j < length vs. tr_result arg' ! j = Some i0)" by simp
  with run each show ?thesis by (simp add: transform_reduce_def)
qed

theorem transform_reduce_is_fold_witness:
  "\<exists>arg arg'. mk_TransformReduceArg [[1, 2, 3], [4, 5, 6::int]] 2 (\<lambda>x. 2 * x) (10::int) (-) = Inr arg \<and>
     transform_reduce arg = Inr arg' \<and>
     tr_result arg' ! 0 = Some 4 \<and> tr_result arg' ! 1 = Some (- 8)"
proof -
  obtain arg where
    arg: "mk_TransformReduceArg [[1, 2, 3], [4, 5, 6::int]] 2 (\<lambda>x. 2 * x) (10::int) (-) = Inr arg"
    using mk_TransformReduceArg_accepts [of "[[1, 2, 3], [4, 5, 6::int]]" 2 "\<lambda>x. 2 * x" 10 "(-)"]
    by (simp add: n_batch_max_def)
  have len: "\<forall>j < length [[1, 2, 3], [4, 5, 6::int]]. 2 \<le> int (length ([[1, 2, 3], [4, 5, 6::int]] ! j))"
    by (simp add: less_Suc_eq)
  from transform_reduce_is_fold [OF arg len] arg show ?thesis
    by (auto simp: less_Suc_eq)
qed

section \<open>Properties of the twisted-mass stencil\<close>

subsection \<open>The argument bundle is read-only apart from the output field\<close>

lemma mk_TwistedMassArg_b:
  "arg_b (mk_TwistedMassArg W out_fld in_fld U_fld a0 b0 xpay x_fld par dagger asy co)
     = (if dagger then - b0 else b0)"
  by (simp add: mk_TwistedMassArg_def Let_def DslashArg.defs TwistedMassArg.defs)

lemma mk_TwistedMassArg_a:
  "arg_a (mk_TwistedMassArg W out_fld in_fld U_fld a0 b0 xpay x_fld par dagger asy co) = a0"
  by (simp add: mk_TwistedMassArg_def Let_def DslashArg.defs TwistedMassArg.defs)

lemma mk_TwistedMassArg_twist_b:
  "dagger \<and> \<not> asy \<Longrightarrow>
   twist_b (mk_TwistedMassArg W out_fld in_fld U_fld a0 b0 xpay x_fld par dagger asy co) = - b0"
  by (simp add: mk_TwistedMassArg_def Let_def DslashArg.defs TwistedMassArg.defs)

lemma twistedMass_frame:
  "twistedMass K nDim nParity dagger asy xpay kt arg idx par
     = arg\<lparr>arg_out := arg_out (twistedMass K nDim nParity dagger asy xpay kt arg idx par)\<rparr>"
  by (simp add: twistedMass_def Let_def)

lemma twistedMass_out_only:
  "\<exists>g. twistedMass K nDim nParity dagger asy xpay kt arg idx par = arg\<lparr>arg_out := g\<rparr>"
proof -
  have "arg = arg\<lparr>arg_out := arg_out arg\<rparr>" by simp
  then show ?thesis
    unfolding twistedMass_def Let_def by (metis (full_types))
qed

lemma fold_twistedMass_out_only:
  "\<exists>g. fold (\<lambda>x_cb a. twistedMass K nDim nParity dagger asy xpay kt a x_cb par) xs arg
          = arg\<lparr>arg_out := g\<rparr>"
proof (induction xs arbitrary: arg)
  case Nil
  have "arg = arg\<lparr>arg_out := arg_out arg\<rparr>" by simp
  then show ?case by (metis fold_simps(1))
next
  case (Cons x xs)
  obtain h where h: "twistedMass K nDim nParity dagger asy xpay kt arg x par = arg\<lparr>arg_out := h\<rparr>"
    using twistedMass_out_only by blast
  obtain g where
    "fold (\<lambda>x_cb a. twistedMass K nDim nParity dagger asy xpay kt a x_cb par) xs (arg\<lparr>arg_out := h\<rparr>)
       = (arg\<lparr>arg_out := h\<rparr>)\<lparr>arg_out := g\<rparr>"
    using Cons.IH by blast
  then have "fold (\<lambda>x_cb a. twistedMass K nDim nParity dagger asy xpay kt a x_cb par) (x # xs) arg
       = arg\<lparr>arg_out := g\<rparr>"
    by (simp add: h)
  then show ?case by blast
qed


lemma volume_loop_out_only:
  "\<exists>g. volume_loop K nDim nParity dagger asy xpay kt par arg = arg\<lparr>arg_out := g\<rparr>"
  unfolding volume_loop_def by (rule fold_twistedMass_out_only)

lemma parity_loop_out_only:
  assumes "parity_loop K nDim nParity dagger asy xpay kt par0 arg = Some arg'"
  shows "\<exists>g. arg' = arg\<lparr>arg_out := g\<rparr>"
proof (rule parity_loop.raw_induct
    [where P = "\<lambda>K nDim nParity dagger asy xpay kt par0 arg arg'. \<exists>g. arg' = arg\<lparr>arg_out := g\<rparr>",
     OF _ assms])
  fix loop and K :: "('a, 'b, 'c, 'd) collaborators" and nDim nParity :: int
    and dagger asy xpay :: bool and kt par0 and arg arg' :: "('a, 'b, 'c, 'd) TwistedMassArg"
  assume IH: "\<And>K nDim nParity dagger asy xpay kt par0 arg y.
      loop K nDim nParity dagger asy xpay kt par0 arg = Some y \<Longrightarrow> \<exists>g. y = arg\<lparr>arg_out := g\<rparr>"
    and body: "(if par0 < nParity
      then let par = if nParity = 2 then par0 else arg_parity arg
           in loop K nDim nParity dagger asy xpay kt (par + 1)
               (volume_loop K nDim nParity dagger asy xpay kt par arg)
      else Some arg) = Some arg'"
  show "\<exists>g. arg' = arg\<lparr>arg_out := g\<rparr>"
  proof (cases "par0 < nParity")
    case False
    with body have "arg' = arg" by simp
    then have "arg' = arg\<lparr>arg_out := arg_out arg\<rparr>" by simp
    then show ?thesis by blast
  next
    case True
    define par where "par = (if nParity = 2 then par0 else arg_parity arg)"
    obtain h where h: "volume_loop K nDim nParity dagger asy xpay kt par arg = arg\<lparr>arg_out := h\<rparr>"
      using volume_loop_out_only by blast
    from body True have
      "loop K nDim nParity dagger asy xpay kt (par + 1)
         (volume_loop K nDim nParity dagger asy xpay kt par arg) = Some arg'"
      unfolding par_def by (simp add: Let_def)
    then have
      "loop K nDim nParity dagger asy xpay kt (par + 1) (arg\<lparr>arg_out := h\<rparr>) = Some arg'"
      unfolding h .
    then obtain g where "arg' = (arg\<lparr>arg_out := h\<rparr>)\<lparr>arg_out := g\<rparr>"
      using IH by blast
    then have "arg' = arg\<lparr>arg_out := g\<rparr>" by simp
    then show ?thesis by blast
  qed
qed

lemma fold_thread_out_only:
  "\<exists>g. fold (twistedMassGPU_thread K nDim nParity dagger asy xpay kt) sched arg
          = arg\<lparr>arg_out := g\<rparr>"
proof (induction sched arbitrary: arg)
  case Nil
  have "arg = arg\<lparr>arg_out := arg_out arg\<rparr>" by simp
  then show ?case by (metis fold_simps(1))
next
  case (Cons t ts)
  have "\<exists>h. twistedMassGPU_thread K nDim nParity dagger asy xpay kt t arg = arg\<lparr>arg_out := h\<rparr>"
  proof -
    have "\<exists>h. arg = arg\<lparr>arg_out := h\<rparr>"
      by (rule exI [of _ "arg_out arg"]) simp
    then show ?thesis
      by (simp add: twistedMassGPU_thread_def Let_def twistedMass_out_only)
  qed
  then obtain h where
    h: "twistedMassGPU_thread K nDim nParity dagger asy xpay kt t arg = arg\<lparr>arg_out := h\<rparr>"
    by blast
  obtain g where
    "fold (twistedMassGPU_thread K nDim nParity dagger asy xpay kt) ts (arg\<lparr>arg_out := h\<rparr>)
       = (arg\<lparr>arg_out := h\<rparr>)\<lparr>arg_out := g\<rparr>"
    using Cons.IH by blast
  then have "fold (twistedMassGPU_thread K nDim nParity dagger asy xpay kt) (t # ts) arg
       = arg\<lparr>arg_out := g\<rparr>"
    by (simp add: h)
  then show ?case by blast
qed

lemma twistedMassGPU_out_only:
  "\<exists>g. twistedMassGPU K nDim nParity dagger asy xpay kt sched arg = arg\<lparr>arg_out := g\<rparr>"
  unfolding twistedMassGPU_def by (rule fold_thread_out_only)

lemma parity_loop_two:
  "parity_loop K nDim 2 dagger asy xpay kt 0 arg
     = Some (volume_loop K nDim 2 dagger asy xpay kt 1 (volume_loop K nDim 2 dagger asy xpay kt 0 arg))"
  apply (subst parity_loop.simps)
  apply (subst parity_loop.simps)
  apply (subst parity_loop.simps)
  apply (simp add: Let_def)
  done

lemma parity_loop_one:
  assumes "0 \<le> arg_parity arg"
  shows "parity_loop K nDim 1 dagger asy xpay kt 0 arg
           = Some (volume_loop K nDim 1 dagger asy xpay kt (arg_parity arg) arg)"
  apply (subst parity_loop.simps)
  apply (subst parity_loop.simps)
  using assms apply (simp add: Let_def)
  done

text \<open>
  C6. The twist scalar stored by the constructor is the configured twist, negated when the
  adjoint variant is requested; the copy handed to the base struct for the adjoint symmetric
  variant is the same value; and a call of \<^verbatim>\<open>twistedMass\<close>, a kernel launch and a
  returning run of the sequential wrapper all leave it as constructed.
\<close>

theorem twist_sign_fixed:
  "arg_b (mk_TwistedMassArg W out_fld in_fld U_fld a0 b0 xpay x_fld par dagger asy co)
     = (if dagger then - b0 else b0)
   \<and> (dagger \<and> \<not> asy \<longrightarrow>
        twist_b (mk_TwistedMassArg W out_fld in_fld U_fld a0 b0 xpay x_fld par dagger asy co) = - b0)
   \<and> arg_b (twistedMass K nDim nParity dagger asy xpay kt
              (mk_TwistedMassArg W out_fld in_fld U_fld a0 b0 xpay x_fld par dagger asy co) idx par')
     = (if dagger then - b0 else b0)
   \<and> arg_b (twistedMassGPU K nDim nParity dagger asy xpay kt sched
              (mk_TwistedMassArg W out_fld in_fld U_fld a0 b0 xpay x_fld par dagger asy co))
     = (if dagger then - b0 else b0)
   \<and> (\<forall>arg'. twistedMassCPU K nDim nParity dagger asy xpay kt
               (mk_TwistedMassArg W out_fld in_fld U_fld a0 b0 xpay x_fld par dagger asy co) = Some arg'
            \<longrightarrow> arg_b arg' = (if dagger then - b0 else b0))"
proof -
  define arg where
    "arg = mk_TwistedMassArg W out_fld in_fld U_fld a0 b0 xpay x_fld par dagger asy co"
  have b: "arg_b arg = (if dagger then - b0 else b0)"
    unfolding arg_def by (rule mk_TwistedMassArg_b)
  have tb: "dagger \<and> \<not> asy \<longrightarrow> twist_b arg = - b0"
    unfolding arg_def by (simp add: mk_TwistedMassArg_twist_b)
  obtain g1 where "twistedMass K nDim nParity dagger asy xpay kt arg idx par' = arg\<lparr>arg_out := g1\<rparr>"
    using twistedMass_out_only by blast
  then have site: "arg_b (twistedMass K nDim nParity dagger asy xpay kt arg idx par') = arg_b arg"
    by simp
  obtain g2 where "twistedMassGPU K nDim nParity dagger asy xpay kt sched arg = arg\<lparr>arg_out := g2\<rparr>"
    using twistedMassGPU_out_only by blast
  then have gpu: "arg_b (twistedMassGPU K nDim nParity dagger asy xpay kt sched arg) = arg_b arg"
    by simp
  have cpu: "\<forall>arg'. twistedMassCPU K nDim nParity dagger asy xpay kt arg = Some arg'
               \<longrightarrow> arg_b arg' = arg_b arg"
  proof (intro allI impI)
    fix arg' assume "twistedMassCPU K nDim nParity dagger asy xpay kt arg = Some arg'"
    then obtain g where "arg' = arg\<lparr>arg_out := g\<rparr>"
      unfolding twistedMassCPU_def using parity_loop_out_only by blast
    then show "arg_b arg' = arg_b arg" by simp
  qed
  from b tb site gpu cpu show ?thesis unfolding arg_def by simp
qed

lemma demo_arg_parity: "arg_parity (demo_arg xpay dagger asy) = 0"
  by (simp add: demo_arg_def mk_TwistedMassArg_def demo_WilsonArg_def Let_def
        DslashArg.defs TwistedMassArg.defs)

theorem twist_sign_fixed_witness:
  "arg_b (demo_arg True True False) = - (1 / 2)
   \<and> twist_b (demo_arg True True False) = - (1 / 2)
   \<and> (\<exists>arg'. twistedMassCPU demo 4 1 True False True INTERIOR_KERNEL (demo_arg True True False)
               = Some arg' \<and> arg_b arg' = - (1 / 2))"
proof -
  have "twistedMassCPU demo 4 1 True False True INTERIOR_KERNEL (demo_arg True True False)
          = Some (volume_loop demo 4 1 True False True INTERIOR_KERNEL 0 (demo_arg True True False))"
    unfolding twistedMassCPU_def
    using parity_loop_one [of "demo_arg True True False" demo 4 True False True INTERIOR_KERNEL]
    by (simp add: demo_arg_parity)
  then show ?thesis
    using twist_sign_fixed [of demo_WilsonArg "(\<lambda>s. 100, \<lambda>d dir i p. 0)" "(\<lambda>s. 1, \<lambda>d dir i p. 5)"
        "(\<lambda>d i p. 2, \<lambda>d i p. 3)" 1 "1 / 2" True "(\<lambda>s. 7, \<lambda>d dir i p. 0)" 0 True False "()"
        demo 4 1 INTERIOR_KERNEL 0 0 "[]"]
    by (simp add: demo_arg_def)
qed

subsection \<open>The reference instance, field by field\<close>

lemma demo_arg_fields:
  "arg_out (demo_arg xpay dagger asy) = (\<lambda>s. 100)"
  "arg_in (demo_arg xpay dagger asy) = (\<lambda>s. 1)"
  "arg_in_Ghost (demo_arg xpay dagger asy) = (\<lambda>d dir i p. 5)"
  "arg_x (demo_arg xpay dagger asy) = (\<lambda>s. 7)"
  "arg_U (demo_arg xpay dagger asy) = (\<lambda>d i p. 2)"
  "arg_U_Ghost (demo_arg xpay dagger asy) = (\<lambda>d i p. 3)"
  "arg_nFace (demo_arg xpay dagger asy) = 1"
  "arg_dim (demo_arg xpay dagger asy) = (\<lambda>d. 4)"
  "arg_threads (demo_arg xpay dagger asy) = 128"
  "arg_t_proj_scale (demo_arg xpay dagger asy) = 2"
  "arg_a (demo_arg xpay dagger asy) = 1"
  "arg_b (demo_arg xpay dagger asy) = (if dagger then - (1 / 2) else 1 / 2)"
  by (simp_all add: demo_arg_def mk_TwistedMassArg_def demo_WilsonArg_def Let_def
        DslashArg.defs TwistedMassArg.defs)

lemma demo_collaborators:
  "getCoords demo = (\<lambda>kt arg idx par. (idx, demo_coord idx par, 3))"
  "isActive demo = (\<lambda>kt active thread_dim d coord arg.
      if kt = EXTERIOR_KERNEL_ALL \<and> thread_dim < d then (False, active) else (True, True))"
  "doHalo demo = region_doHalo"
  "doBulk demo = region_doBulk"
  "isComplete demo = demo_isComplete"
  "Vector_default demo = 0"
  "plus_v demo = (+)"
  "real_times_v demo = (\<lambda>r w. of_real r * w)"
  "complex_times_v demo = (*)"
  "gamma_v demo = (\<lambda>n w. - w)"
  "project demo = (\<lambda>d s w. w)"
  "reconstruct demo = (\<lambda>d s w. w)"
  "real_times_h demo = (\<lambda>r w. of_real r * w)"
  "link_times_h demo = (*)"
  "conj_link demo = cnj"
  by (simp_all add: demo_def demo_base_def)

lemma demo_arith:
  "Vector_default demo = 0"
  "plus_v demo = (+)"
  "real_times_v demo = (\<lambda>r w. of_real r * w)"
  "complex_times_v demo = (*)"
  "gamma_v demo = (\<lambda>n w. - w)"
  "project demo = (\<lambda>d s w. w)"
  "reconstruct demo = (\<lambda>d s w. w)"
  "real_times_h demo = (\<lambda>r w. of_real r * w)"
  "link_times_h demo = (*)"
  "conj_link demo = cnj"
  by (simp_all add: demo_def demo_base_def)

subsection \<open>Which path a gather takes\<close>

lemma select_path_cases:
  "(select_path K kt d ghost = halo_path) = (doHalo K kt d \<and> ghost)"
  "(select_path K kt d ghost = bulk_path) = (doBulk K kt \<and> \<not> ghost)"
  "(select_path K kt d ghost = no_path) = ((ghost \<and> \<not> doHalo K kt d) \<or> (\<not> ghost \<and> \<not> doBulk K kt))"
  by (auto simp: select_path_def)

lemma forward_gather_no_path:
  "select_path K kt d (fst (fwd_ghost K kt arg coord thread_dim d active)) = no_path \<Longrightarrow>
   fst (forward_gather K nParity dagger kt arg coord x_cb par idx thread_dim d (acc, active)) = acc"
  by (simp add: forward_gather_def Let_def)

lemma backward_gather_no_path:
  "select_path K kt d (fst (bwd_ghost K kt arg coord thread_dim d active)) = no_path \<Longrightarrow>
   fst (backward_gather K nParity dagger kt arg coord x_cb par idx thread_dim d (acc, active)) = acc"
  by (simp add: backward_gather_def Let_def)

text \<open>
  C1, as amended. In each gather at most one of the two paths is taken: the halo path
  exactly when \<^verbatim>\<open>doHalo(d)\<close> holds and the neighbour is a ghost, the bulk path exactly when
  \<^verbatim>\<open>doBulk()\<close> holds and the neighbour is not a ghost, and neither path (the accumulator
  is left as it is) in the two remaining cases; the neighbour is a ghost exactly when its
  coordinate crosses the face and \<^verbatim>\<open>isActive\<close> answers yes.
\<close>

theorem gather_path_at_most_one:
  "(fst (fwd_ghost K kt arg coord thread_dim d active)
      = (arg_dim arg d \<le> coord d + arg_nFace arg \<and> fst (isActive K kt active thread_dim d coord arg)))
   \<and> (fst (bwd_ghost K kt arg coord thread_dim d active)
      = (coord d - arg_nFace arg < 0 \<and> fst (isActive K kt active thread_dim d coord arg)))
   \<and> ((select_path K kt d ghost = halo_path) = (doHalo K kt d \<and> ghost))
   \<and> ((select_path K kt d ghost = bulk_path) = (doBulk K kt \<and> \<not> ghost))
   \<and> ((select_path K kt d ghost = no_path)
        = ((ghost \<and> \<not> doHalo K kt d) \<or> (\<not> ghost \<and> \<not> doBulk K kt)))
   \<and> (select_path K kt d (fst (fwd_ghost K kt arg coord thread_dim d active)) = no_path \<longrightarrow>
        fst (forward_gather K nParity dagger kt arg coord x_cb par idx thread_dim d (acc, active)) = acc)
   \<and> (select_path K kt d (fst (bwd_ghost K kt arg coord thread_dim d active)) = no_path \<longrightarrow>
        fst (backward_gather K nParity dagger kt arg coord x_cb par idx thread_dim d (acc, active)) = acc)"
proof -
  have f: "fst (fwd_ghost K kt arg coord thread_dim d active)
      = (arg_dim arg d \<le> coord d + arg_nFace arg \<and> fst (isActive K kt active thread_dim d coord arg))"
    by (simp add: fwd_ghost_def)
  have b: "fst (bwd_ghost K kt arg coord thread_dim d active)
      = (coord d - arg_nFace arg < 0 \<and> fst (isActive K kt active thread_dim d coord arg))"
    by (simp add: bwd_ghost_def)
  show ?thesis
    using f b select_path_cases [of K kt d ghost]
      forward_gather_no_path [of K kt d arg coord thread_dim active nParity dagger x_cb par idx acc]
      backward_gather_no_path [of K kt d arg coord thread_dim active nParity dagger x_cb par idx acc]
    by blast
qed

lemma demo_coord_0_1: "demo_coord 0 1 = (\<lambda>d. if d = 0 then 1 else 0)"
  by (rule ext) (simp add: demo_coord_def)

lemma demo_coord_96_0: "demo_coord 96 0 = (\<lambda>d. if d = 0 then 1 else if d = 1 then 0 else if d = 2 then 0 else 3)"
  by (rule ext) (simp add: demo_coord_def)

lemma demo_coord_42_0: "demo_coord 42 0 = (\<lambda>d. 1)"
  by (rule ext) (simp add: demo_coord_def)

lemma demo_coord_0_0: "demo_coord 0 0 = (\<lambda>d. 0)"
  by (rule ext) (simp add: demo_coord_def)

theorem gather_path_at_most_one_witness:
  "select_path demo (EXTERIOR_KERNEL_DIM 3) 0
     (fst (fwd_ghost demo (EXTERIOR_KERNEL_DIM 3) (demo_arg False True False) (demo_coord 0 1) 3 0 True))
     = no_path
   \<and> fst (forward_gather demo 1 True (EXTERIOR_KERNEL_DIM 3) (demo_arg False True False)
            (demo_coord 0 1) 0 1 0 3 0 (0, True)) = 0
   \<and> select_path demo (EXTERIOR_KERNEL_DIM 3) 3 True = halo_path
   \<and> select_path demo INTERIOR_KERNEL 3 False = bulk_path"
proof -
  have g: "fst (fwd_ghost demo (EXTERIOR_KERNEL_DIM 3) (demo_arg False True False) (demo_coord 0 1) 3 0 True)
             = False"
    by (simp add: fwd_ghost_def demo_arg_fields demo_coord_0_1)
  have n: "select_path demo (EXTERIOR_KERNEL_DIM 3) 0 False = no_path"
    using gather_path_at_most_one [of demo "EXTERIOR_KERNEL_DIM 3" "demo_arg False True False"
        "demo_coord 0 1" 3 0 True False]
    by (simp add: demo_collaborators)
  have h: "select_path demo (EXTERIOR_KERNEL_DIM 3) 3 True = halo_path"
    using gather_path_at_most_one [of demo "EXTERIOR_KERNEL_DIM 3" "demo_arg False True False"
        "demo_coord 0 1" 3 3 True True]
    by (simp add: demo_collaborators)
  have k: "select_path demo INTERIOR_KERNEL 3 False = bulk_path"
    using gather_path_at_most_one [of demo INTERIOR_KERNEL "demo_arg False True False"
        "demo_coord 0 1" 3 3 True False]
    by (simp add: demo_collaborators)
  have a: "fst (forward_gather demo 1 True (EXTERIOR_KERNEL_DIM 3) (demo_arg False True False)
            (demo_coord 0 1) 0 1 0 3 0 (0, True)) = 0"
    using gather_path_at_most_one [of demo "EXTERIOR_KERNEL_DIM 3" "demo_arg False True False"
        "demo_coord 0 1" 3 0 True False 1 True 0 1 0 0] g n
    by simp
  from g n h k a show ?thesis by simp
qed

theorem gather_path_neither_counterexample:
  "select_path demo (EXTERIOR_KERNEL_DIM 3) 0
     (fst (fwd_ghost demo (EXTERIOR_KERNEL_DIM 3) (demo_arg False True False) (demo_coord 0 1) 3 0 True))
     \<noteq> halo_path
   \<and> select_path demo (EXTERIOR_KERNEL_DIM 3) 0
     (fst (fwd_ghost demo (EXTERIOR_KERNEL_DIM 3) (demo_arg False True False) (demo_coord 0 1) 3 0 True))
     \<noteq> bulk_path"
  by (simp add: fwd_ghost_def demo_arg_fields demo_coord_0_1 select_path_def demo_collaborators)


subsection \<open>What each path adds\<close>

text \<open>
  C3. In the bulk path of both gathers the vector read through the ordinary accessor at the
  neighbour index is pre-rotated by the twist, then projected, multiplied by the link (by
  its conjugate in the backward gather, the link being read at the backward neighbour with
  the opposite parity), reconstructed and added to the accumulator.
\<close>

theorem bulk_path_contribution:
  "(select_path K kt d (fst (fwd_ghost K kt arg coord thread_dim d active)) = bulk_path \<longrightarrow>
      fst (forward_gather K nParity dagger kt arg coord x_cb par idx thread_dim d (acc, active))
        = plus_v K acc
            (reconstruct K d (if dagger then 1 else - 1)
               (link_times_h K (arg_U arg d x_cb par)
                  (project K d (if dagger then 1 else - 1)
                     (twist_rotation K (arg_a arg) (arg_b arg)
                        (arg_in arg (getNeighborIndexCB K coord d 1 (arg_dc arg),
                                     their_spinor_parity nParity par)))))))
   \<and> (select_path K kt d (fst (bwd_ghost K kt arg coord thread_dim d active)) = bulk_path \<longrightarrow>
      fst (backward_gather K nParity dagger kt arg coord x_cb par idx thread_dim d (acc, active))
        = plus_v K acc
            (reconstruct K d (if dagger then - 1 else 1)
               (link_times_h K
                  (conj_link K (arg_U arg d (getNeighborIndexCB K coord d (- 1) (arg_dc arg)) (1 - par)))
                  (project K d (if dagger then - 1 else 1)
                     (twist_rotation K (arg_a arg) (arg_b arg)
                        (arg_in arg (getNeighborIndexCB K coord d (- 1) (arg_dc arg),
                                     their_spinor_parity nParity par)))))))
   \<and> twist_rotation K (arg_a arg) (arg_b arg) w
        = real_times_v K (arg_a arg)
            (plus_v K w (complex_times_v K (Complex 0 (arg_b arg)) (gamma_v K 4 w)))"
  by (simp add: forward_gather_def backward_gather_def Let_def twist_rotation_def)

theorem bulk_path_contribution_witness:
  "select_path demo INTERIOR_KERNEL 2
     (fst (fwd_ghost demo INTERIOR_KERNEL (demo_arg False True False) (demo_coord 42 0) 3 2 True))
     = bulk_path
   \<and> select_path demo INTERIOR_KERNEL 2
     (fst (bwd_ghost demo INTERIOR_KERNEL (demo_arg False True False) (demo_coord 42 0) 3 2 True))
     = bulk_path
   \<and> fst (forward_gather demo 1 True INTERIOR_KERNEL (demo_arg False True False)
            (demo_coord 42 0) 42 0 42 3 2 (0, True))
       = 2 * twist_rotation demo 1 (- (1 / 2)) 1
   \<and> fst (backward_gather demo 1 True INTERIOR_KERNEL (demo_arg False True False)
            (demo_coord 42 0) 42 0 42 3 2 (0, True))
       = 2 * twist_rotation demo 1 (- (1 / 2)) 1"
proof -
  have f: "select_path demo INTERIOR_KERNEL 2
     (fst (fwd_ghost demo INTERIOR_KERNEL (demo_arg False True False) (demo_coord 42 0) 3 2 True))
     = bulk_path"
    by (simp add: fwd_ghost_def select_path_def demo_arg_fields demo_coord_42_0 demo_collaborators)
  have b: "select_path demo INTERIOR_KERNEL 2
     (fst (bwd_ghost demo INTERIOR_KERNEL (demo_arg False True False) (demo_coord 42 0) 3 2 True))
     = bulk_path"
    by (simp add: bwd_ghost_def select_path_def demo_arg_fields demo_coord_42_0 demo_collaborators)
  show ?thesis
    using f b bulk_path_contribution [of demo INTERIOR_KERNEL 2 "demo_arg False True False"
        "demo_coord 42 0" 3 True 1 True 42 0 42 0 0]
    by (simp add: demo_arg_fields demo_collaborators)
qed

text \<open>
  C4, as amended. In the halo path the half-projected vector is read from the halo accessor
  in both gathers and multiplied by \<^verbatim>\<open>t_proj_scale\<close> when \<open>d = 3\<close>; the link of the
  backward gather is read from the halo accessor of the links, conjugated, while the link
  of the forward gather is the link of the site itself, read through the ordinary accessor
  at \<open>(d, x_cb, parity)\<close>. The product is reconstructed and added to the accumulator.
\<close>

theorem halo_path_contribution:
  "(select_path K kt d (fst (fwd_ghost K kt arg coord thread_dim d active)) = halo_path \<longrightarrow>
      fst (forward_gather K nParity dagger kt arg coord x_cb par idx thread_dim d (acc, active))
        = plus_v K acc
            (reconstruct K d (if dagger then 1 else - 1)
               (link_times_h K (arg_U arg d x_cb par)
                  (let ghost_idx = (if kt = EXTERIOR_KERNEL_ALL \<and> d \<noteq> thread_dim
                                    then ghostFaceIndex K 1 coord (arg_dim arg) d (arg_nFace arg)
                                    else idx);
                       in0 = arg_in_Ghost arg d 1 ghost_idx (their_spinor_parity nParity par)
                   in if d = 3 then real_times_h K (arg_t_proj_scale arg) in0 else in0))))
   \<and> (select_path K kt d (fst (bwd_ghost K kt arg coord thread_dim d active)) = halo_path \<longrightarrow>
      fst (backward_gather K nParity dagger kt arg coord x_cb par idx thread_dim d (acc, active))
        = (let ghost_idx = (if kt = EXTERIOR_KERNEL_ALL \<and> d \<noteq> thread_dim
                            then ghostFaceIndex K 0 coord (arg_dim arg) d (arg_nFace arg)
                            else idx);
               in0 = arg_in_Ghost arg d 0 ghost_idx (their_spinor_parity nParity par)
           in plus_v K acc
                (reconstruct K d (if dagger then - 1 else 1)
                   (link_times_h K (conj_link K (arg_U_Ghost arg d ghost_idx (1 - par)))
                      (if d = 3 then real_times_h K (arg_t_proj_scale arg) in0 else in0)))))"
  by (simp add: forward_gather_def backward_gather_def Let_def)

theorem halo_path_contribution_witness:
  "select_path demo (EXTERIOR_KERNEL_DIM 3) 3
     (fst (fwd_ghost demo (EXTERIOR_KERNEL_DIM 3) (demo_arg False True False) (demo_coord 96 0) 3 3 True))
     = halo_path
   \<and> fst (forward_gather demo 1 True (EXTERIOR_KERNEL_DIM 3) (demo_arg False True False)
            (demo_coord 96 0) 96 0 96 3 3 (0, True)) = 20
   \<and> select_path demo (EXTERIOR_KERNEL_DIM 3) 3
     (fst (bwd_ghost demo (EXTERIOR_KERNEL_DIM 3) (demo_arg False True False) (demo_coord 0 0) 3 3 True))
     = halo_path
   \<and> fst (backward_gather demo 1 True (EXTERIOR_KERNEL_DIM 3) (demo_arg False True False)
            (demo_coord 0 0) 0 0 0 3 3 (0, True)) = 30"
proof -
  have f: "select_path demo (EXTERIOR_KERNEL_DIM 3) 3
     (fst (fwd_ghost demo (EXTERIOR_KERNEL_DIM 3) (demo_arg False True False) (demo_coord 96 0) 3 3 True))
     = halo_path"
    by (simp add: fwd_ghost_def select_path_def demo_arg_fields demo_coord_96_0 demo_collaborators)
  have b: "select_path demo (EXTERIOR_KERNEL_DIM 3) 3
     (fst (bwd_ghost demo (EXTERIOR_KERNEL_DIM 3) (demo_arg False True False) (demo_coord 0 0) 3 3 True))
     = halo_path"
    by (simp add: bwd_ghost_def select_path_def demo_arg_fields demo_coord_0_0 demo_collaborators)
  show ?thesis
    using f b
      halo_path_contribution [of demo "EXTERIOR_KERNEL_DIM 3" 3 "demo_arg False True False"
        "demo_coord 96 0" 3 True 1 True 96 0 96 0]
      halo_path_contribution [of demo "EXTERIOR_KERNEL_DIM 3" 3 "demo_arg False True False"
        "demo_coord 0 0" 3 True 1 True 0 0 0 0]
    by (simp add: demo_arg_fields demo_collaborators Let_def)
qed

text \<open>
  The claim as it was stated fails in the forward gather: on the upper face of dimension 3
  the link comes from the ordinary accessor (value 2), not from the halo accessor of the
  links (value 3).
\<close>

theorem halo_forward_link_counterexample:
  "fst (forward_gather demo 1 True (EXTERIOR_KERNEL_DIM 3) (demo_arg False True False)
          (demo_coord 96 0) 96 0 96 3 3 (0, True))
     \<noteq> plus_v demo 0
          (reconstruct demo 3 1
             (link_times_h demo (arg_U_Ghost (demo_arg False True False) 3 96 0)
                (real_times_h demo (arg_t_proj_scale (demo_arg False True False))
                   (arg_in_Ghost (demo_arg False True False) 3 1 96 0))))"
  by (simp add: forward_gather_def fwd_ghost_def select_path_def Let_def their_spinor_parity_def
        demo_arg_fields demo_coord_96_0 demo_collaborators)


subsection \<open>The per-site operator\<close>



text \<open>
  C2. With \<open>st\<close> the state of the call before its finalize step: when the site is complete
  and the thread active, the accumulator \<open>v\<close> is replaced by \<open>a * (v + i*b * gamma4 v)\<close>
  exactly in the variants that are not adjoint or are asymmetric, and with xpay the
  pass-through value of the site is added after that; when the site is not complete or the
  thread not active, the accumulator is left as it is. The result is what the write-back
  stores.
\<close>

theorem finalize_cases:
  "(let st = before_finalize K nDim nParity dagger asy kt arg idx par;
        ready = (isComplete K kt arg (st_coord st) \<and> st_active st);
        x_val = arg_x arg (st_x_cb st, st_my_spinor_parity st);
        rotated = real_times_v K (arg_a arg)
                    (plus_v K (st_out st)
                       (complex_times_v K (Complex 0 (arg_b arg)) (gamma_v K 4 (st_out st))));
        res = final_out K nDim nParity dagger asy xpay kt arg idx par
    in (ready \<and> (\<not> dagger \<or> asy) \<and> xpay \<longrightarrow> res = plus_v K rotated x_val)
     \<and> (ready \<and> (\<not> dagger \<or> asy) \<and> \<not> xpay \<longrightarrow> res = rotated)
     \<and> (ready \<and> \<not> (\<not> dagger \<or> asy) \<and> xpay \<longrightarrow> res = plus_v K (st_out st) x_val)
     \<and> (ready \<and> \<not> (\<not> dagger \<or> asy) \<and> \<not> xpay \<longrightarrow> res = st_out st)
     \<and> (\<not> ready \<longrightarrow> res = st_out st)
     \<and> (kt \<noteq> EXTERIOR_KERNEL_ALL \<or> st_active st \<longrightarrow>
          arg_out (twistedMass K nDim nParity dagger asy xpay kt arg idx par)
            (st_x_cb st, st_my_spinor_parity st) = res))"
  by (cases dagger; cases asy; cases xpay)
     (simp_all add: final_out_def finalize_def twistedMass_def twist_rotation_def Let_def)


lemma upto_0_3: "[0..3] = [0, 1, 2, 3::int]"
  by (simp add: upto.simps)

lemma demo_interior_site_42:
  "st_x_cb (before_finalize demo 4 1 False False INTERIOR_KERNEL (demo_arg xp False False) 42 0) = 42"
  "st_my_spinor_parity (before_finalize demo 4 1 False False INTERIOR_KERNEL (demo_arg xp False False) 42 0) = 0"
  "st_coord (before_finalize demo 4 1 False False INTERIOR_KERNEL (demo_arg xp False False) 42 0) = (\<lambda>d. 1)"
  "st_active (before_finalize demo 4 1 False False INTERIOR_KERNEL (demo_arg xp False False) 42 0) = True"
  "st_out (before_finalize demo 4 1 False False INTERIOR_KERNEL (demo_arg xp False False) 42 0) = 16"
  by (simp_all add: before_finalize_def gather_def Let_def demo_collaborators demo_coord_42_0
        partial_merge_def)
     (simp_all add: demo_def applyWilsonTM_def forward_gather_def backward_gather_def
        fwd_ghost_def bwd_ghost_def select_path_def twist_rotation_def their_spinor_parity_def
        Let_def demo_base_def demo_arg_fields complex_eq_iff upto_0_3)


lemma demo_interior_site_0:
  "st_x_cb (before_finalize demo 4 1 dg asy INTERIOR_KERNEL (demo_arg xp dg asy) 0 0) = 0"
  "st_my_spinor_parity (before_finalize demo 4 1 dg asy INTERIOR_KERNEL (demo_arg xp dg asy) 0 0) = 0"
  "st_coord (before_finalize demo 4 1 dg asy INTERIOR_KERNEL (demo_arg xp dg asy) 0 0) = (\<lambda>d. 0)"
  by (simp_all add: before_finalize_def Let_def demo_collaborators demo_coord_0_0)

lemma demo_site_0_incomplete:
  "\<not> isComplete demo INTERIOR_KERNEL (demo_arg xp dg asy) (\<lambda>d. 0)"
  by (auto simp: demo_collaborators on_face_def demo_arg_fields upto_0_3)

lemma demo_site_42_complete:
  "isComplete demo INTERIOR_KERNEL (demo_arg xp dg asy) (\<lambda>d. 1)"
  by (simp add: demo_collaborators on_face_def demo_arg_fields upto_0_3)

lemma demo_interior_site_42_adjoint:
  "st_x_cb (before_finalize demo 4 1 True False INTERIOR_KERNEL (demo_arg xp True False) 42 0) = 42"
  "st_my_spinor_parity (before_finalize demo 4 1 True False INTERIOR_KERNEL (demo_arg xp True False) 42 0) = 0"
  "st_coord (before_finalize demo 4 1 True False INTERIOR_KERNEL (demo_arg xp True False) 42 0) = (\<lambda>d. 1)"
  "st_active (before_finalize demo 4 1 True False INTERIOR_KERNEL (demo_arg xp True False) 42 0) = True"
  "st_out (before_finalize demo 4 1 True False INTERIOR_KERNEL (demo_arg xp True False) 42 0) = Complex 16 8"
  by (simp_all add: before_finalize_def gather_def Let_def demo_collaborators demo_coord_42_0
        partial_merge_def)
     (simp_all add: demo_def applyWilsonTM_def forward_gather_def backward_gather_def
        fwd_ghost_def bwd_ghost_def select_path_def twist_rotation_def their_spinor_parity_def
        Let_def demo_base_def demo_arg_fields complex_eq_iff upto_0_3)

theorem finalize_cases_witness:
  "final_out demo 4 1 False False True INTERIOR_KERNEL (demo_arg True False False) 42 0
     = Complex 23 (- 8)
   \<and> arg_out (twistedMass demo 4 1 False False True INTERIOR_KERNEL (demo_arg True False False) 42 0)
        (42, 0) = Complex 23 (- 8)
   \<and> final_out demo 4 1 False False False INTERIOR_KERNEL (demo_arg False False False) 42 0
     = Complex 16 (- 8)
   \<and> final_out demo 4 1 True False True INTERIOR_KERNEL (demo_arg True True False) 42 0
     = Complex 23 8
   \<and> final_out demo 4 1 True False True INTERIOR_KERNEL (demo_arg True True False) 0 0
     = st_out (before_finalize demo 4 1 True False INTERIOR_KERNEL (demo_arg True True False) 0 0)"
  using finalize_cases [of demo 4 1 False False INTERIOR_KERNEL "demo_arg True False False" 42 0 True]
    finalize_cases [of demo 4 1 False False INTERIOR_KERNEL "demo_arg False False False" 42 0 False]
    finalize_cases [of demo 4 1 True False INTERIOR_KERNEL "demo_arg True True False" 42 0 True]
    finalize_cases [of demo 4 1 True False INTERIOR_KERNEL "demo_arg True True False" 0 0 True]
  by (simp add: Let_def demo_interior_site_42 demo_interior_site_42_adjoint demo_interior_site_0
        demo_site_0_incomplete demo_site_42_complete demo_arg_fields demo_arith complex_eq_iff)

subsection \<open>Pass-through accumulation\<close>

lemma twistedMass_xpay_relation:
  "twistedMass K nDim nParity dagger asy True kt arg idx par =
     (let st = before_finalize K nDim nParity dagger asy kt arg idx par;
          base = twistedMass K nDim nParity dagger asy False kt arg idx par;
          site = (st_x_cb st, st_my_spinor_parity st)
      in if isComplete K kt arg (st_coord st) \<and> st_active st
         then base\<lparr>arg_out := (arg_out base)(site := plus_v K (arg_out base site) (arg_x arg site))\<rparr>
         else base)"
  by (simp add: twistedMass_def final_out_def finalize_def Let_def)

subsection \<open>Sequential and parallel dispatch\<close>

text \<open>The gather reads the output field only through the collaborators.\<close>

lemma fwd_ghost_out:
  assumes "\<And>a td d coord. isActive K kt a td d coord (arg\<lparr>arg_out := f\<rparr>) = isActive K kt a td d coord arg"
  shows "fwd_ghost K kt (arg\<lparr>arg_out := f\<rparr>) coord thread_dim d active
           = fwd_ghost K kt arg coord thread_dim d active"
  by (simp add: fwd_ghost_def assms)

lemma bwd_ghost_out:
  assumes "\<And>a td d coord. isActive K kt a td d coord (arg\<lparr>arg_out := f\<rparr>) = isActive K kt a td d coord arg"
  shows "bwd_ghost K kt (arg\<lparr>arg_out := f\<rparr>) coord thread_dim d active
           = bwd_ghost K kt arg coord thread_dim d active"
  by (simp add: bwd_ghost_def assms)

lemma forward_gather_out:
  assumes "\<And>a td d coord. isActive K kt a td d coord (arg\<lparr>arg_out := f\<rparr>) = isActive K kt a td d coord arg"
  shows "forward_gather K nParity dagger kt (arg\<lparr>arg_out := f\<rparr>) coord x_cb par idx thread_dim d s
           = forward_gather K nParity dagger kt arg coord x_cb par idx thread_dim d s"
  by (simp add: forward_gather_def Let_def fwd_ghost_out [OF assms] cong: gather_path.case_cong if_cong)

lemma backward_gather_out:
  assumes "\<And>a td d coord. isActive K kt a td d coord (arg\<lparr>arg_out := f\<rparr>) = isActive K kt a td d coord arg"
  shows "backward_gather K nParity dagger kt (arg\<lparr>arg_out := f\<rparr>) coord x_cb par idx thread_dim d s
           = backward_gather K nParity dagger kt arg coord x_cb par idx thread_dim d s"
  by (simp add: backward_gather_def Let_def bwd_ghost_out [OF assms] cong: gather_path.case_cong if_cong)

lemma applyWilsonTM_out:
  assumes "\<And>a td d coord. isActive K kt a td d coord (arg\<lparr>arg_out := f\<rparr>) = isActive K kt a td d coord arg"
  shows "applyWilsonTM K nDim nParity dagger kt acc (arg\<lparr>arg_out := f\<rparr>) coord x_cb par idx thread_dim active
           = applyWilsonTM K nDim nParity dagger kt acc arg coord x_cb par idx thread_dim active"
  by (simp add: applyWilsonTM_def forward_gather_out [OF assms]
        backward_gather_out [OF assms])

lemma gather_out:
  assumes "\<And>a td d coord. isActive K kt a td d coord (arg\<lparr>arg_out := f\<rparr>) = isActive K kt a td d coord arg"
    and "\<And>acc. applyWilson K nDim nParity dagger kt acc (arg\<lparr>arg_out := f\<rparr>)
               = applyWilson K nDim nParity dagger kt acc arg"
  shows "gather K nDim nParity dagger asy kt (arg\<lparr>arg_out := f\<rparr>) coord x_cb par idx thread_dim active
           = gather K nDim nParity dagger asy kt arg coord x_cb par idx thread_dim active"
  by (simp add: gather_def applyWilsonTM_out [OF assms(1)] assms(2))


text \<open>
  A call of \<^verbatim>\<open>twistedMass\<close> acts on the output field at one site only, and what it stores
  there depends on the field through the value at that site only.
\<close>

lemma twistedMass_local:
  assumes gc: "\<And>f. getCoords K kt (arg\<lparr>arg_out := f\<rparr>) = getCoords K kt arg"
    and ia: "\<And>f a td d coord. isActive K kt a td d coord (arg\<lparr>arg_out := f\<rparr>)
               = isActive K kt a td d coord arg"
    and ic: "\<And>f. isComplete K kt (arg\<lparr>arg_out := f\<rparr>) = isComplete K kt arg"
    and aw: "\<And>f acc. applyWilson K nDim nParity dagger kt acc (arg\<lparr>arg_out := f\<rparr>)
               = applyWilson K nDim nParity dagger kt acc arg"
  shows "\<exists>val. \<forall>f. arg_out (twistedMass K nDim nParity dagger asy xpay kt (arg\<lparr>arg_out := f\<rparr>) idx par)
            = (case write_site K nDim nParity dagger asy kt arg idx par of
                 None \<Rightarrow> f
               | Some s \<Rightarrow> f(s := val (f s)))"
proof -
  define c where "c = getCoords K kt arg idx par"
  define x where "x = fst c"
  define coord where "coord = fst (snd c)"
  define m where "m = (if nParity = 2 then par else 0)"
  define g where "g = gather K nDim nParity dagger asy kt arg coord x par idx (snd (snd c))
                        (if kt = EXTERIOR_KERNEL_ALL then False else True)"
  define active where "active = snd g"
  define merged where
    "merged = (\<lambda>u. if kt \<noteq> INTERIOR_KERNEL \<and> active then plus_v K (fst g) u else fst g)"
  define val where
    "val = (\<lambda>u. finalize K dagger asy xpay kt arg coord x m active (merged u))"
  have bf: "before_finalize K nDim nParity dagger asy kt (arg\<lparr>arg_out := f\<rparr>) idx par
              = \<lparr> st_x_cb = x, st_coord = coord, st_my_spinor_parity = m, st_active = active,
                  st_out = merged (f (x, m)) \<rparr>" for f
    by (simp add: before_finalize_def Let_def gc gather_out [OF ia aw] partial_merge_def
          c_def x_def coord_def m_def g_def active_def merged_def)
  have bf0: "before_finalize K nDim nParity dagger asy kt arg idx par
              = \<lparr> st_x_cb = x, st_coord = coord, st_my_spinor_parity = m, st_active = active,
                  st_out = merged (arg_out arg (x, m)) \<rparr>"
    using bf [of "arg_out arg"] by simp
  have fin: "finalize K dagger asy xpay kt (arg\<lparr>arg_out := f\<rparr>) coord x m active acc
               = finalize K dagger asy xpay kt arg coord x m active acc" for f acc
    by (simp add: finalize_def ic)
  have ws: "write_site K nDim nParity dagger asy kt arg idx par
              = (if kt \<noteq> EXTERIOR_KERNEL_ALL \<or> active then Some (x, m) else None)"
    by (simp add: write_site_def bf0)
  have "arg_out (twistedMass K nDim nParity dagger asy xpay kt (arg\<lparr>arg_out := f\<rparr>) idx par)
            = (case write_site K nDim nParity dagger asy kt arg idx par of
                 None \<Rightarrow> f
               | Some s \<Rightarrow> f(s := val (f s)))" for f
    by (simp add: twistedMass_def final_out_def bf fin ws val_def)
  then show ?thesis by blast
qed

lemma local_updates_commute:
  assumes "s \<noteq> s'"
  shows "(\<lambda>f. f(s := v (f s))) \<circ> (\<lambda>f. f(s' := v' (f s'))) = (\<lambda>f. f(s' := v' (f s'))) \<circ> (\<lambda>f. f(s := v (f s)))"
  using assms by (auto simp: fun_eq_iff)


lemma thread_out_only:
  "\<exists>h. twistedMassGPU_thread K nDim nParity dagger asy xpay kt t arg = arg\<lparr>arg_out := h\<rparr>"
proof -
  have "\<exists>h. arg = arg\<lparr>arg_out := h\<rparr>"
    by (rule exI [of _ "arg_out arg"]) simp
  then show ?thesis
    by (simp add: twistedMassGPU_thread_def Let_def twistedMass_out_only)
qed

lemma thread_step:
  "twistedMassGPU_thread K nDim nParity dagger asy xpay kt t (arg\<lparr>arg_out := f\<rparr>)
     = arg\<lparr>arg_out := thread_effect K nDim nParity dagger asy xpay kt arg t f\<rparr>"
proof -
  obtain h where
    h: "twistedMassGPU_thread K nDim nParity dagger asy xpay kt t (arg\<lparr>arg_out := f\<rparr>)
          = (arg\<lparr>arg_out := f\<rparr>)\<lparr>arg_out := h\<rparr>"
    using thread_out_only by blast
  then have "thread_effect K nDim nParity dagger asy xpay kt arg t f = h"
    by (simp add: thread_effect_def)
  with h show ?thesis by simp
qed

lemma fold_thread_effect:
  "fold (twistedMassGPU_thread K nDim nParity dagger asy xpay kt) ts (arg\<lparr>arg_out := f\<rparr>)
     = arg\<lparr>arg_out := fold (thread_effect K nDim nParity dagger asy xpay kt arg) ts f\<rparr>"
  by (induction ts arbitrary: f) (simp_all add: thread_step)

lemma thread_effect_shape:
  assumes gc: "\<And>f. getCoords K kt (arg\<lparr>arg_out := f\<rparr>) = getCoords K kt arg"
    and ia: "\<And>f a td d coord. isActive K kt a td d coord (arg\<lparr>arg_out := f\<rparr>)
               = isActive K kt a td d coord arg"
    and ic: "\<And>f. isComplete K kt (arg\<lparr>arg_out := f\<rparr>) = isComplete K kt arg"
    and aw: "\<And>f acc. applyWilson K nDim nParity dagger kt acc (arg\<lparr>arg_out := f\<rparr>)
               = applyWilson K nDim nParity dagger kt acc arg"
  shows "thread_effect K nDim nParity dagger asy xpay kt arg t = (\<lambda>f. f)
       \<or> (\<exists>s val p. fst t < arg_threads arg
             \<and> p = (if nParity = 2 then snd t else arg_parity arg) \<and> (p = 0 \<or> p = 1)
             \<and> write_site K nDim nParity dagger asy kt arg (fst t) p = Some s
             \<and> thread_effect K nDim nParity dagger asy xpay kt arg t = (\<lambda>f. f(s := val (f s))))"
proof -
  define p where "p = (if nParity = 2 then snd t else arg_parity arg)"
  show ?thesis
  proof (cases "fst t < arg_threads arg \<and> (p = 0 \<or> p = 1)")
    case False
    then have "thread_effect K nDim nParity dagger asy xpay kt arg t = (\<lambda>f. f)"
      by (auto simp: thread_effect_def twistedMassGPU_thread_def Let_def p_def fun_eq_iff)
    then show ?thesis by blast
  next
    case True
    have eff: "thread_effect K nDim nParity dagger asy xpay kt arg t f
            = arg_out (twistedMass K nDim nParity dagger asy xpay kt (arg\<lparr>arg_out := f\<rparr>) (fst t) p)" for f
      using True by (auto simp: thread_effect_def twistedMassGPU_thread_def Let_def p_def)
    obtain val where
      val: "\<And>f. arg_out (twistedMass K nDim nParity dagger asy xpay kt (arg\<lparr>arg_out := f\<rparr>) (fst t) p)
            = (case write_site K nDim nParity dagger asy kt arg (fst t) p of
                 None \<Rightarrow> f
               | Some s \<Rightarrow> f(s := val (f s)))"
      using twistedMass_local [OF gc ia ic aw, of asy xpay "fst t" p] by blast
    show ?thesis
    proof (cases "write_site K nDim nParity dagger asy kt arg (fst t) p")
      case None
      then have "thread_effect K nDim nParity dagger asy xpay kt arg t = (\<lambda>f. f)"
        by (simp add: fun_eq_iff eff val)
      then show ?thesis by blast
    next
      case (Some s)
      then have "thread_effect K nDim nParity dagger asy xpay kt arg t = (\<lambda>f. f(s := val (f s)))"
        by (simp add: fun_eq_iff eff val)
      with True Some show ?thesis unfolding p_def by blast
    qed
  qed
qed

lemma thread_effects_commute:
  assumes gc: "\<And>f. getCoords K kt (arg\<lparr>arg_out := f\<rparr>) = getCoords K kt arg"
    and ia: "\<And>f a td d coord. isActive K kt a td d coord (arg\<lparr>arg_out := f\<rparr>)
               = isActive K kt a td d coord arg"
    and ic: "\<And>f. isComplete K kt (arg\<lparr>arg_out := f\<rparr>) = isComplete K kt arg"
    and aw: "\<And>f acc. applyWilson K nDim nParity dagger kt acc (arg\<lparr>arg_out := f\<rparr>)
               = applyWilson K nDim nParity dagger kt acc arg"
    and one_writer: "\<And>i j p q. 0 \<le> i \<Longrightarrow> i < arg_threads arg \<Longrightarrow> 0 \<le> j \<Longrightarrow> j < arg_threads arg \<Longrightarrow>
        (if nParity = 2 then p = 0 \<or> p = 1 else p = arg_parity arg) \<Longrightarrow>
        (if nParity = 2 then q = 0 \<or> q = 1 else q = arg_parity arg) \<Longrightarrow>
        (i, p) \<noteq> (j, q) \<Longrightarrow>
        write_site K nDim nParity dagger asy kt arg i p \<noteq> None \<Longrightarrow>
        write_site K nDim nParity dagger asy kt arg i p \<noteq> write_site K nDim nParity dagger asy kt arg j q"
    and t: "0 \<le> fst t" and u: "0 \<le> fst u"
    and z: "nParity \<noteq> 2 \<Longrightarrow> snd t = snd u"
  shows "thread_effect K nDim nParity dagger asy xpay kt arg t \<circ> thread_effect K nDim nParity dagger asy xpay kt arg u
       = thread_effect K nDim nParity dagger asy xpay kt arg u \<circ> thread_effect K nDim nParity dagger asy xpay kt arg t"
proof (cases "t = u")
  case True
  then show ?thesis by simp
next
  case False
  note st = thread_effect_shape [OF gc ia ic aw, of asy xpay t]
  note su = thread_effect_shape [OF gc ia ic aw, of asy xpay u]
  show ?thesis
  proof (cases "thread_effect K nDim nParity dagger asy xpay kt arg t = (\<lambda>f. f)
              \<or> thread_effect K nDim nParity dagger asy xpay kt arg u = (\<lambda>f. f)")
    case True
    then show ?thesis by (elim disjE) (simp_all add: comp_def)
  next
    case False
    with st obtain s val p where
      tp: "fst t < arg_threads arg" "p = (if nParity = 2 then snd t else arg_parity arg)" "p = 0 \<or> p = 1"
      and ws: "write_site K nDim nParity dagger asy kt arg (fst t) p = Some s"
      and et: "thread_effect K nDim nParity dagger asy xpay kt arg t = (\<lambda>f. f(s := val (f s)))"
      by blast
    from False su obtain s' val' q where
      uq: "fst u < arg_threads arg" "q = (if nParity = 2 then snd u else arg_parity arg)" "q = 0 \<or> q = 1"
      and ws': "write_site K nDim nParity dagger asy kt arg (fst u) q = Some s'"
      and eu: "thread_effect K nDim nParity dagger asy xpay kt arg u = (\<lambda>f. f(s' := val' (f s')))"
      by blast
    have ne: "(fst t, p) \<noteq> (fst u, q)"
    proof (cases "nParity = 2")
      case True
      with tp(2) uq(2) \<open>t \<noteq> u\<close> show ?thesis by (auto simp: prod_eq_iff)
    next
      case False
      with z \<open>t \<noteq> u\<close> show ?thesis by (auto simp: prod_eq_iff)
    qed
    have "write_site K nDim nParity dagger asy kt arg (fst t) p
            \<noteq> write_site K nDim nParity dagger asy kt arg (fst u) q"
      using t tp(1) u uq(1) _ _ ne
    proof (rule one_writer)
      show "if nParity = 2 then p = 0 \<or> p = 1 else p = arg_parity arg"
        using tp by (auto split: if_splits)
      show "if nParity = 2 then q = 0 \<or> q = 1 else q = arg_parity arg"
        using uq by (auto split: if_splits)
      show "write_site K nDim nParity dagger asy kt arg (fst t) p \<noteq> None" using ws by simp
    qed
    then have "s \<noteq> s'" using ws ws' by simp
    then show ?thesis unfolding et eu by (rule local_updates_commute)
  qed
qed


text \<open>
  One row of the grid, run in ascending order: the threads below \<^verbatim>\<open>arg.threads\<close> do what
  the inner loop of the sequential wrapper does, the others return at once.
\<close>

lemma row_below_threads:
  assumes "\<forall>x \<in> set xs. x < arg_threads arg"
    and "(if nParity = 2 then z else arg_parity arg) = p" and "p = 0 \<or> p = 1"
  shows "fold (twistedMassGPU_thread K nDim nParity dagger asy xpay kt) (map (\<lambda>x. (x, z)) xs) arg
           = fold (\<lambda>x_cb a. twistedMass K nDim nParity dagger asy xpay kt a x_cb p) xs arg"
  using assms
proof (induction xs arbitrary: arg)
  case Nil
  show ?case by simp
next
  case (Cons x xs)
  obtain h where h: "twistedMass K nDim nParity dagger asy xpay kt arg x p = arg\<lparr>arg_out := h\<rparr>"
    using twistedMass_out_only by blast
  have step: "twistedMassGPU_thread K nDim nParity dagger asy xpay kt (x, z) arg
                = twistedMass K nDim nParity dagger asy xpay kt arg x p"
    using Cons.prems by (auto simp: twistedMassGPU_thread_def Let_def)
  have "fold (twistedMassGPU_thread K nDim nParity dagger asy xpay kt) (map (\<lambda>x. (x, z)) xs)
          (arg\<lparr>arg_out := h\<rparr>)
        = fold (\<lambda>x_cb a. twistedMass K nDim nParity dagger asy xpay kt a x_cb p) xs
          (arg\<lparr>arg_out := h\<rparr>)"
    using Cons.prems by (intro Cons.IH) (auto split: if_splits)
  then show ?case by (simp add: step h)
qed

lemma row_above_threads:
  assumes "\<forall>x \<in> set xs. arg_threads arg \<le> x"
  shows "fold (twistedMassGPU_thread K nDim nParity dagger asy xpay kt) (map (\<lambda>x. (x, z)) xs) arg = arg"
  using assms by (induction xs) (simp_all add: twistedMassGPU_thread_def)

lemma upto_split_at:
  assumes "n \<le> g"
  shows "[0..g - 1] = [0..n - 1] @ [max 0 n..g - 1]"
proof (cases "0 < n")
  case False
  then show ?thesis by simp
next
  case True
  show ?thesis
  proof (cases "n = g")
    case True
    then show ?thesis by simp
  next
    case False
    with assms \<open>0 < n\<close> have "[0..g - 1] = [0..n - 1] @ [n..g - 1]"
      by (intro upto_split1) simp_all
    with \<open>0 < n\<close> show ?thesis by simp
  qed
qed

lemma thread_row:
  assumes "arg_threads arg \<le> gx"
    and "(if nParity = 2 then z else arg_parity arg) = p" and "p = 0 \<or> p = 1"
  shows "fold (twistedMassGPU_thread K nDim nParity dagger asy xpay kt) (map (\<lambda>x. (x, z)) [0..gx - 1]) arg
           = volume_loop K nDim nParity dagger asy xpay kt p arg"
proof -
  define arg1 where "arg1 = volume_loop K nDim nParity dagger asy xpay kt p arg"
  obtain h where h: "arg1 = arg\<lparr>arg_out := h\<rparr>"
    unfolding arg1_def using volume_loop_out_only by blast
  have below: "fold (twistedMassGPU_thread K nDim nParity dagger asy xpay kt)
                 (map (\<lambda>x. (x, z)) [0..arg_threads arg - 1]) arg = arg1"
    unfolding arg1_def volume_loop_def
    using assms(2,3) by (intro row_below_threads) simp_all
  have above: "fold (twistedMassGPU_thread K nDim nParity dagger asy xpay kt)
                 (map (\<lambda>x. (x, z)) [max 0 (arg_threads arg)..gx - 1]) arg1 = arg1"
    by (intro row_above_threads) (simp add: h)
  show ?thesis
    unfolding upto_split_at [OF assms(1)] arg1_def [symmetric]
    by (simp add: below above)
qed


lemma grid_two_rows:
  "distinct (map (\<lambda>x. (x, 0::int)) [0..gx - 1] @ map (\<lambda>x. (x, 1)) [0..gx - 1])"
  "set (map (\<lambda>x. (x, 0::int)) [0..gx - 1] @ map (\<lambda>x. (x, 1)) [0..gx - 1]) = set (launch_grid gx 2)"
proof -
  show "distinct (map (\<lambda>x. (x, 0::int)) [0..gx - 1] @ map (\<lambda>x. (x, 1)) [0..gx - 1])"
    by (auto simp: distinct_map inj_on_def)
  have two: "{0..(1::int)} = {0, 1}" by auto
  have "set (launch_grid gx 2) = {0..gx - 1} \<times> {0, 1}"
    by (simp add: launch_grid_def two)
  also have "\<dots> = (\<lambda>x. (x, 0)) ` {0..gx - 1} \<union> (\<lambda>x. (x, 1)) ` {0..gx - 1}"
    by auto
  finally show "set (map (\<lambda>x. (x, 0::int)) [0..gx - 1] @ map (\<lambda>x. (x, 1)) [0..gx - 1])
                  = set (launch_grid gx 2)"
    by simp
qed

lemma grid_one_row:
  "distinct (map (\<lambda>x. (x, 0::int)) [0..gx - 1])"
  "set (map (\<lambda>x. (x, 0::int)) [0..gx - 1]) = set (launch_grid gx 1)"
proof -
  show "distinct (map (\<lambda>x. (x, 0::int)) [0..gx - 1])"
    by (simp add: distinct_map inj_on_def)
  have "set (launch_grid gx 1) = {0..gx - 1} \<times> {0}"
    by (simp add: launch_grid_def)
  also have "\<dots> = (\<lambda>x. (x, 0)) ` {0..gx - 1}"
    by auto
  finally show "set (map (\<lambda>x. (x, 0::int)) [0..gx - 1]) = set (launch_grid gx 1)"
    by simp
qed

text \<open>
  C8. Let the kernel be launched on a grid whose first axis covers \<^verbatim>\<open>arg.threads\<close> and
  whose third axis has \<^verbatim>\<open>nParity\<close> threads, every thread of the grid running once, in any
  order. For a full field (\<^verbatim>\<open>nParity = 2\<close>) or a single parity 0 or 1, with collaborators
  that do not read the output field and distinct calls that write distinct sites, the
  sequential wrapper returns and its output is the output of the launch.
\<close>

theorem sequential_parallel_agree:
  assumes par: "nParity = 2 \<or> (nParity = 1 \<and> (arg_parity arg = 0 \<or> arg_parity arg = 1))"
    and gx: "arg_threads arg \<le> gx" and gz: "gz = nParity"
    and sched: "distinct sched" "set sched = set (launch_grid gx gz)"
    and gc: "\<And>f. getCoords K kt (arg\<lparr>arg_out := f\<rparr>) = getCoords K kt arg"
    and ia: "\<And>f a td d coord. isActive K kt a td d coord (arg\<lparr>arg_out := f\<rparr>)
               = isActive K kt a td d coord arg"
    and ic: "\<And>f. isComplete K kt (arg\<lparr>arg_out := f\<rparr>) = isComplete K kt arg"
    and aw: "\<And>f acc. applyWilson K nDim nParity dagger kt acc (arg\<lparr>arg_out := f\<rparr>)
               = applyWilson K nDim nParity dagger kt acc arg"
    and one_writer: "\<And>i j p q. 0 \<le> i \<Longrightarrow> i < arg_threads arg \<Longrightarrow> 0 \<le> j \<Longrightarrow> j < arg_threads arg \<Longrightarrow>
        (if nParity = 2 then p = 0 \<or> p = 1 else p = arg_parity arg) \<Longrightarrow>
        (if nParity = 2 then q = 0 \<or> q = 1 else q = arg_parity arg) \<Longrightarrow>
        (i, p) \<noteq> (j, q) \<Longrightarrow>
        write_site K nDim nParity dagger asy kt arg i p \<noteq> None \<Longrightarrow>
        write_site K nDim nParity dagger asy kt arg i p \<noteq> write_site K nDim nParity dagger asy kt arg j q"
  shows "twistedMassCPU K nDim nParity dagger asy xpay kt arg
           = Some (twistedMassGPU K nDim nParity dagger asy xpay kt sched arg)"
proof -
  define canon where
    "canon = (if nParity = 2
              then map (\<lambda>x. (x, 0::int)) [0..gx - 1] @ map (\<lambda>x. (x, 1)) [0..gx - 1]
              else map (\<lambda>x. (x, 0::int)) [0..gx - 1])"
  have canon: "distinct canon \<and> set canon = set (launch_grid gx gz)"
  proof (cases "nParity = 2")
    case True
    with gz show ?thesis by (simp only: canon_def if_True grid_two_rows simp_thms)
  next
    case False
    with par have "nParity = 1" by simp
    with gz False show ?thesis by (simp only: canon_def if_False grid_one_row simp_thms)
  qed
  have ms: "mset sched = mset canon"
    using sched canon set_eq_iff_mset_eq_distinct [of sched canon] by simp
  have comm: "thread_effect K nDim nParity dagger asy xpay kt arg t
                \<circ> thread_effect K nDim nParity dagger asy xpay kt arg u
              = thread_effect K nDim nParity dagger asy xpay kt arg u
                \<circ> thread_effect K nDim nParity dagger asy xpay kt arg t"
    if "t \<in> set sched" "u \<in> set sched" for t u
  proof (rule thread_effects_commute [OF gc ia ic aw])
    show "write_site K nDim nParity dagger asy kt arg i p
            \<noteq> write_site K nDim nParity dagger asy kt arg j q"
      if "0 \<le> i" "i < arg_threads arg" "0 \<le> j" "j < arg_threads arg"
        "if nParity = 2 then p = 0 \<or> p = 1 else p = arg_parity arg"
        "if nParity = 2 then q = 0 \<or> q = 1 else q = arg_parity arg"
        "(i, p) \<noteq> (j, q)" "write_site K nDim nParity dagger asy kt arg i p \<noteq> None"
      for i j p q
      using that by (rule one_writer)
    show "0 \<le> fst t" using that(1) sched(2) by (auto simp: launch_grid_def)
    show "0 \<le> fst u" using that(2) sched(2) by (auto simp: launch_grid_def)
    show "snd t = snd u" if "nParity \<noteq> 2"
    proof -
      from that par gz have "gz = 1" by simp
      with \<open>t \<in> set sched\<close> \<open>u \<in> set sched\<close> sched(2) show ?thesis
        by (auto simp: launch_grid_def)
    qed
  qed
  have eff: "fold (thread_effect K nDim nParity dagger asy xpay kt arg) sched
               = fold (thread_effect K nDim nParity dagger asy xpay kt arg) canon"
    using comm ms by (rule fold_multiset_equiv)
  have "twistedMassGPU K nDim nParity dagger asy xpay kt sched arg
          = fold (twistedMassGPU_thread K nDim nParity dagger asy xpay kt) sched
              (arg\<lparr>arg_out := arg_out arg\<rparr>)"
    by (simp add: twistedMassGPU_def)
  also have "\<dots> = arg\<lparr>arg_out := fold (thread_effect K nDim nParity dagger asy xpay kt arg) canon
                                    (arg_out arg)\<rparr>"
    by (simp only: fold_thread_effect eff)
  also have "\<dots> = fold (twistedMassGPU_thread K nDim nParity dagger asy xpay kt) canon
                     (arg\<lparr>arg_out := arg_out arg\<rparr>)"
    by (simp only: fold_thread_effect)
  also have "\<dots> = fold (twistedMassGPU_thread K nDim nParity dagger asy xpay kt) canon arg"
    by simp
  finally have gpu: "twistedMassGPU K nDim nParity dagger asy xpay kt sched arg
          = fold (twistedMassGPU_thread K nDim nParity dagger asy xpay kt) canon arg" .
  show ?thesis
  proof (cases "nParity = 2")
    case True
    define arg1 where "arg1 = volume_loop K nDim 2 dagger asy xpay kt 0 arg"
    obtain h where h: "arg1 = arg\<lparr>arg_out := h\<rparr>"
      unfolding arg1_def using volume_loop_out_only by blast
    have r0: "fold (twistedMassGPU_thread K nDim 2 dagger asy xpay kt)
                (map (\<lambda>x. (x, 0)) [0..gx - 1]) arg = arg1"
      unfolding arg1_def using gx by (intro thread_row) simp_all
    have r1: "fold (twistedMassGPU_thread K nDim 2 dagger asy xpay kt)
                (map (\<lambda>x. (x, 1)) [0..gx - 1]) arg1
              = volume_loop K nDim 2 dagger asy xpay kt 1 arg1"
      using gx by (intro thread_row) (simp_all add: h)
    show ?thesis
      unfolding gpu
      by (simp add: True canon_def twistedMassCPU_def parity_loop_two r0 r1 arg1_def [symmetric])
  next
    case False
    with par have one: "nParity = 1" and p: "arg_parity arg = 0 \<or> arg_parity arg = 1" by simp_all
    have r: "fold (twistedMassGPU_thread K nDim 1 dagger asy xpay kt)
                (map (\<lambda>x. (x, 0)) [0..gx - 1]) arg
              = volume_loop K nDim 1 dagger asy xpay kt (arg_parity arg) arg"
      using gx p by (intro thread_row) simp_all
    have "0 \<le> arg_parity arg" using p by auto
    then show ?thesis
      unfolding gpu
      by (simp add: one canon_def twistedMassCPU_def parity_loop_one r)
  qed
qed


lemma demo_reads_no_output:
  "getCoords demo kt (arg\<lparr>arg_out := f\<rparr>) = getCoords demo kt arg"
  "isActive demo kt a td d coord (arg\<lparr>arg_out := f\<rparr>) = isActive demo kt a td d coord arg"
  "isComplete demo kt (arg\<lparr>arg_out := f\<rparr>) = isComplete demo kt arg"
  "applyWilson demo nDim nParity dagger kt acc (arg\<lparr>arg_out := f\<rparr>)
     = applyWilson demo nDim nParity dagger kt acc arg"
proof -
  show "getCoords demo kt (arg\<lparr>arg_out := f\<rparr>) = getCoords demo kt arg"
    by (simp add: demo_collaborators)
  show "isActive demo kt a td d coord (arg\<lparr>arg_out := f\<rparr>) = isActive demo kt a td d coord arg"
    by (simp add: demo_collaborators)
  show "isComplete demo kt (arg\<lparr>arg_out := f\<rparr>) = isComplete demo kt arg"
    by (cases kt) (simp_all add: demo_collaborators fun_eq_iff on_face_def)
  have act: "isActive demo_base kt a td d coord ((arg\<lparr>arg_a := 1, arg_b := 0\<rparr>)\<lparr>arg_out := f\<rparr>)
               = isActive demo_base kt a td d coord (arg\<lparr>arg_a := 1, arg_b := 0\<rparr>)" for a td d coord
    by (simp add: demo_base_def)
  have tm: "applyWilsonTM demo_base nDim nParity dagger kt acc
          ((arg\<lparr>arg_a := 1, arg_b := 0\<rparr>)\<lparr>arg_out := f\<rparr>) coord x_cb par idx td active
        = applyWilsonTM demo_base nDim nParity dagger kt acc
          (arg\<lparr>arg_a := 1, arg_b := 0\<rparr>) coord x_cb par idx td active" for coord x_cb par idx td active
    by (rule applyWilsonTM_out) (rule act)
  have swap: "(arg\<lparr>arg_out := f\<rparr>)\<lparr>arg_a := 1, arg_b := 0\<rparr>
                = (arg\<lparr>arg_a := 1, arg_b := 0\<rparr>)\<lparr>arg_out := f\<rparr>"
    by (cases arg) simp
  have "applyWilson demo nDim nParity dagger kt acc (arg\<lparr>arg_out := f\<rparr>)
          = applyWilsonTM demo_base nDim nParity dagger kt acc
              ((arg\<lparr>arg_out := f\<rparr>)\<lparr>arg_a := 1, arg_b := 0\<rparr>)"
    by (simp add: demo_def)
  also have "\<dots> = applyWilsonTM demo_base nDim nParity dagger kt acc
              ((arg\<lparr>arg_a := 1, arg_b := 0\<rparr>)\<lparr>arg_out := f\<rparr>)"
    by (simp only: swap)
  also have "\<dots> = applyWilsonTM demo_base nDim nParity dagger kt acc (arg\<lparr>arg_a := 1, arg_b := 0\<rparr>)"
    by (intro ext) (rule tm)
  also have "\<dots> = applyWilson demo nDim nParity dagger kt acc arg"
    by (simp add: demo_def)
  finally show "applyWilson demo nDim nParity dagger kt acc (arg\<lparr>arg_out := f\<rparr>)
     = applyWilson demo nDim nParity dagger kt acc arg" .
qed

lemma demo_write_site:
  "write_site demo nDim 2 dagger asy INTERIOR_KERNEL arg i p = Some (i, p)"
  by (simp add: write_site_def before_finalize_def Let_def demo_collaborators)

theorem sequential_parallel_agree_witness:
  "twistedMassCPU demo 4 2 True False True INTERIOR_KERNEL (demo_arg True True False)
     = Some (twistedMassGPU demo 4 2 True False True INTERIOR_KERNEL (rev (launch_grid 128 2))
               (demo_arg True True False))"
proof (rule sequential_parallel_agree [where gx = 128 and gz = 2])
  show "(2::int) = 2 \<or> (2::int) = 1 \<and>
          (arg_parity (demo_arg True True False) = 0 \<or> arg_parity (demo_arg True True False) = 1)"
    by simp
  show "arg_threads (demo_arg True True False) \<le> 128" by (simp add: demo_arg_fields)
  show "(2::int) = 2" by simp
  show "distinct (rev (launch_grid 128 2))" by (simp add: launch_grid_def distinct_product)
  show "set (rev (launch_grid 128 2)) = set (launch_grid 128 2)" by simp
  show "getCoords demo INTERIOR_KERNEL ((demo_arg True True False)\<lparr>arg_out := f\<rparr>)
          = getCoords demo INTERIOR_KERNEL (demo_arg True True False)" for f
    by (rule demo_reads_no_output)
  show "isActive demo INTERIOR_KERNEL a td d coord ((demo_arg True True False)\<lparr>arg_out := f\<rparr>)
          = isActive demo INTERIOR_KERNEL a td d coord (demo_arg True True False)" for f a td d coord
    by (rule demo_reads_no_output)
  show "isComplete demo INTERIOR_KERNEL ((demo_arg True True False)\<lparr>arg_out := f\<rparr>)
          = isComplete demo INTERIOR_KERNEL (demo_arg True True False)" for f
    by (rule demo_reads_no_output)
  show "applyWilson demo 4 2 True INTERIOR_KERNEL acc ((demo_arg True True False)\<lparr>arg_out := f\<rparr>)
          = applyWilson demo 4 2 True INTERIOR_KERNEL acc (demo_arg True True False)" for f acc
    by (rule demo_reads_no_output)
  show "write_site demo 4 2 True False INTERIOR_KERNEL (demo_arg True True False) i p
          \<noteq> write_site demo 4 2 True False INTERIOR_KERNEL (demo_arg True True False) j q"
    if "(i, p) \<noteq> (j, q)" for i j p q
    using that by (simp add: demo_write_site)
qed

subsection \<open>Pass-through accumulation over the passes of the operator\<close>

lemma completes_writes:
  "completes K nDim nParity dagger asy kt arg idx par \<Longrightarrow>
   write_site K nDim nParity dagger asy kt arg idx par
     = Some (st_x_cb (before_finalize K nDim nParity dagger asy kt arg idx par),
             st_my_spinor_parity (before_finalize K nDim nParity dagger asy kt arg idx par))"
  by (auto simp: completes_def write_site_def Let_def)

lemma xpay_call:
  "twistedMass K nDim nParity dagger asy True kt arg idx par =
     (let st = before_finalize K nDim nParity dagger asy kt arg idx par;
          base = twistedMass K nDim nParity dagger asy False kt arg idx par;
          site = (st_x_cb st, st_my_spinor_parity st)
      in if completes K nDim nParity dagger asy kt arg idx par
         then base\<lparr>arg_out := (arg_out base)(site := plus_v K (arg_out base site) (arg_x arg site))\<rparr>
         else base)"
  by (simp add: twistedMass_xpay_relation completes_def Let_def)

lemma before_finalize_out:
  assumes gc: "\<And>f. getCoords K kt (arg\<lparr>arg_out := f\<rparr>) = getCoords K kt arg"
    and ia: "\<And>f a td d coord. isActive K kt a td d coord (arg\<lparr>arg_out := f\<rparr>)
               = isActive K kt a td d coord arg"
    and aw: "\<And>f acc. applyWilson K nDim nParity dagger kt acc (arg\<lparr>arg_out := f\<rparr>)
               = applyWilson K nDim nParity dagger kt acc arg"
  shows "st_x_cb (before_finalize K nDim nParity dagger asy kt (arg\<lparr>arg_out := f\<rparr>) idx par)
           = st_x_cb (before_finalize K nDim nParity dagger asy kt arg idx par)"
    and "st_coord (before_finalize K nDim nParity dagger asy kt (arg\<lparr>arg_out := f\<rparr>) idx par)
           = st_coord (before_finalize K nDim nParity dagger asy kt arg idx par)"
    and "st_my_spinor_parity (before_finalize K nDim nParity dagger asy kt (arg\<lparr>arg_out := f\<rparr>) idx par)
           = st_my_spinor_parity (before_finalize K nDim nParity dagger asy kt arg idx par)"
    and "st_active (before_finalize K nDim nParity dagger asy kt (arg\<lparr>arg_out := f\<rparr>) idx par)
           = st_active (before_finalize K nDim nParity dagger asy kt arg idx par)"
  by (simp_all add: before_finalize_def Let_def gc gather_out [OF ia aw])

lemma completes_out:
  assumes gc: "\<And>f. getCoords K kt (arg\<lparr>arg_out := f\<rparr>) = getCoords K kt arg"
    and ia: "\<And>f a td d coord. isActive K kt a td d coord (arg\<lparr>arg_out := f\<rparr>)
               = isActive K kt a td d coord arg"
    and ic: "\<And>f. isComplete K kt (arg\<lparr>arg_out := f\<rparr>) = isComplete K kt arg"
    and aw: "\<And>f acc. applyWilson K nDim nParity dagger kt acc (arg\<lparr>arg_out := f\<rparr>)
               = applyWilson K nDim nParity dagger kt acc arg"
  shows "completes K nDim nParity dagger asy kt (arg\<lparr>arg_out := f\<rparr>) idx par
           = completes K nDim nParity dagger asy kt arg idx par"
  by (simp add: completes_def Let_def ic before_finalize_out [OF gc ia aw])

text \<open>
  The effect of a call with xpay on the output field, from the effect of the same call
  without it.
\<close>

lemma call_with_xpay:
  assumes gc: "\<And>f. getCoords K kt (arg\<lparr>arg_out := f\<rparr>) = getCoords K kt arg"
    and ia: "\<And>f a td d coord. isActive K kt a td d coord (arg\<lparr>arg_out := f\<rparr>)
               = isActive K kt a td d coord arg"
    and ic: "\<And>f. isComplete K kt (arg\<lparr>arg_out := f\<rparr>) = isComplete K kt arg"
    and aw: "\<And>f acc. applyWilson K nDim nParity dagger kt acc (arg\<lparr>arg_out := f\<rparr>)
               = applyWilson K nDim nParity dagger kt acc arg"
  shows "arg_out (twistedMass K nDim nParity dagger asy True kt (arg\<lparr>arg_out := f\<rparr>) idx par)
           = (let g = arg_out (twistedMass K nDim nParity dagger asy False kt (arg\<lparr>arg_out := f\<rparr>) idx par)
              in case write_site K nDim nParity dagger asy kt arg idx par of
                   None \<Rightarrow> g
                 | Some s \<Rightarrow> if completes K nDim nParity dagger asy kt arg idx par
                             then g(s := plus_v K (g s) (arg_x arg s)) else g)"
proof (cases "completes K nDim nParity dagger asy kt arg idx par")
  case True
  then have c': "completes K nDim nParity dagger asy kt (arg\<lparr>arg_out := f\<rparr>) idx par"
    by (simp add: completes_out [OF gc ia ic aw])
  show ?thesis
    by (simp add: xpay_call [of K nDim nParity dagger asy kt "arg\<lparr>arg_out := f\<rparr>"] c' True
          Let_def completes_writes [OF True] before_finalize_out [OF gc ia aw])
next
  case False
  then have c': "\<not> completes K nDim nParity dagger asy kt (arg\<lparr>arg_out := f\<rparr>) idx par"
    by (simp add: completes_out [OF gc ia ic aw])
  show ?thesis
    by (simp add: xpay_call [of K nDim nParity dagger asy kt "arg\<lparr>arg_out := f\<rparr>"] c' False
          Let_def split: option.split)
qed


lemma run_calls_Cons:
  "run_calls K nDim nParity dagger asy xpay (c # cs) (arg\<lparr>arg_out := f\<rparr>)
     = run_calls K nDim nParity dagger asy xpay cs
         (arg\<lparr>arg_out := arg_out (twistedMass K nDim nParity dagger asy xpay (fst c)
                                     (arg\<lparr>arg_out := f\<rparr>) (fst (snd c)) (snd (snd c)))\<rparr>)"
proof -
  obtain g where
    g: "twistedMass K nDim nParity dagger asy xpay (fst c) (arg\<lparr>arg_out := f\<rparr>) (fst (snd c)) (snd (snd c))
          = (arg\<lparr>arg_out := f\<rparr>)\<lparr>arg_out := g\<rparr>"
    using twistedMass_out_only by blast
  show ?thesis by (simp add: run_calls_def g)
qed

text \<open>
  Two runs of the same calls, with and without xpay, started on output fields that differ
  by the pass-through value exactly on a set \<open>D\<close> of sites no call writes, end on output
  fields that differ by it exactly on \<open>D\<close> and the sites the calls complete.
\<close>

lemma run_calls_xpay_invariant:
  assumes gc: "\<And>kt f. getCoords K kt (arg\<lparr>arg_out := f\<rparr>) = getCoords K kt arg"
    and ia: "\<And>kt f a td d coord. isActive K kt a td d coord (arg\<lparr>arg_out := f\<rparr>)
               = isActive K kt a td d coord arg"
    and ic: "\<And>kt f. isComplete K kt (arg\<lparr>arg_out := f\<rparr>) = isComplete K kt arg"
    and aw: "\<And>kt f acc. applyWilson K nDim nParity dagger kt acc (arg\<lparr>arg_out := f\<rparr>)
               = applyWilson K nDim nParity dagger kt acc arg"
  shows "final_writes K nDim nParity dagger asy arg calls \<Longrightarrow>
     (\<forall>s. fx s = (if s \<in> D then plus_v K (fn s) (arg_x arg s) else fn s)) \<Longrightarrow>
     (\<forall>c \<in> set calls. \<forall>s \<in> D.
         write_site K nDim nParity dagger asy (fst c) arg (fst (snd c)) (snd (snd c)) \<noteq> Some s) \<Longrightarrow>
     arg_out (run_calls K nDim nParity dagger asy True calls (arg\<lparr>arg_out := fx\<rparr>)) s
       = (if s \<in> D \<or> (\<exists>c \<in> set calls.
                 completes K nDim nParity dagger asy (fst c) arg (fst (snd c)) (snd (snd c))
               \<and> write_site K nDim nParity dagger asy (fst c) arg (fst (snd c)) (snd (snd c)) = Some s)
          then plus_v K (arg_out (run_calls K nDim nParity dagger asy False calls (arg\<lparr>arg_out := fn\<rparr>)) s)
                 (arg_x arg s)
          else arg_out (run_calls K nDim nParity dagger asy False calls (arg\<lparr>arg_out := fn\<rparr>)) s)"
proof (induction calls arbitrary: fx fn D)
  case Nil
  from Nil(2) have "fx s = (if s \<in> D then plus_v K (fn s) (arg_x arg s) else fn s)" by blast
  then show ?case by (simp add: run_calls_def)
next
  case (Cons c cs)
  define kt where "kt = fst c"
  define idx where "idx = fst (snd c)"
  define par where "par = snd (snd c)"
  define site where "site = write_site K nDim nParity dagger asy kt arg idx par"
  define comp where "comp = completes K nDim nParity dagger asy kt arg idx par"
  define tn where "tn = (\<lambda>f. arg_out (twistedMass K nDim nParity dagger asy False kt (arg\<lparr>arg_out := f\<rparr>) idx par))"
  define tx where "tx = (\<lambda>f. arg_out (twistedMass K nDim nParity dagger asy True kt (arg\<lparr>arg_out := f\<rparr>) idx par))"
  obtain val where val: "\<And>f. tn f = (case site of None \<Rightarrow> f | Some s \<Rightarrow> f(s := val (f s)))"
    unfolding tn_def site_def
    using twistedMass_local [where kt = kt and asy = asy and xpay = False and idx = idx and par = par,
        OF gc ia ic aw] by blast
  have txn: "tx f = (case site of None \<Rightarrow> tn f
                    | Some s \<Rightarrow> if comp then (tn f)(s := plus_v K (tn f s) (arg_x arg s)) else tn f)" for f
    unfolding tx_def tn_def site_def comp_def
    using call_with_xpay [where kt = kt and asy = asy and f = f and idx = idx and par = par,
        OF gc ia ic aw] by (simp add: Let_def)
  have comp_site: "comp \<Longrightarrow> site \<noteq> None"
    unfolding comp_def site_def by (simp add: completes_writes)
  define D' where "D' = (if comp then D \<union> {s. site = Some s} else D)"
  have untouched: "\<forall>s \<in> D. site \<noteq> Some s"
    using Cons.prems(3) by (simp add: site_def kt_def idx_def par_def)
  have pt: "fx s = (if s \<in> D then plus_v K (fn s) (arg_x arg s) else fn s)" for s
    using Cons.prems(2) by blast
  have rel: "\<forall>s. tx fx s = (if s \<in> D' then plus_v K (tn fn s) (arg_x arg s) else tn fn s)"
  proof (cases site)
    case None
    with comp_site have "\<not> comp" by auto
    with None show ?thesis by (intro allI) (simp add: txn val D'_def pt)
  next
    case (Some s0)
    with untouched have "s0 \<notin> D" by auto
    then have eq0: "fx s0 = fn s0" by (simp add: pt)
    show ?thesis
    proof (intro allI)
      fix s
      show "tx fx s = (if s \<in> D' then plus_v K (tn fn s) (arg_x arg s) else tn fn s)"
        using Some \<open>s0 \<notin> D\<close> by (cases "s = s0") (simp_all add: txn val D'_def eq0 pt)
    qed
  qed
  have fw: "final_writes K nDim nParity dagger asy arg cs"
    using Cons.prems(1) by simp
  have later: "\<forall>c' \<in> set cs.
       write_site K nDim nParity dagger asy (fst c') arg (fst (snd c')) (snd (snd c')) \<noteq> site" if comp
    using Cons.prems(1) that by (simp add: comp_def site_def kt_def idx_def par_def)
  have untouched': "\<forall>c' \<in> set cs. \<forall>s \<in> D'.
         write_site K nDim nParity dagger asy (fst c') arg (fst (snd c')) (snd (snd c')) \<noteq> Some s"
    using Cons.prems(3) later by (auto simp: D'_def)
  have IH: "arg_out (run_calls K nDim nParity dagger asy True cs (arg\<lparr>arg_out := tx fx\<rparr>)) s
       = (if s \<in> D' \<or> (\<exists>c \<in> set cs.
                 completes K nDim nParity dagger asy (fst c) arg (fst (snd c)) (snd (snd c))
               \<and> write_site K nDim nParity dagger asy (fst c) arg (fst (snd c)) (snd (snd c)) = Some s)
          then plus_v K (arg_out (run_calls K nDim nParity dagger asy False cs (arg\<lparr>arg_out := tn fn\<rparr>)) s)
                 (arg_x arg s)
          else arg_out (run_calls K nDim nParity dagger asy False cs (arg\<lparr>arg_out := tn fn\<rparr>)) s)"
    using fw rel untouched' by (rule Cons.IH)
  have cond: "(s \<in> D' \<or> (\<exists>c \<in> set cs.
                 completes K nDim nParity dagger asy (fst c) arg (fst (snd c)) (snd (snd c))
               \<and> write_site K nDim nParity dagger asy (fst c) arg (fst (snd c)) (snd (snd c)) = Some s))
            = (s \<in> D \<or> (\<exists>c \<in> set (c # cs).
                 completes K nDim nParity dagger asy (fst c) arg (fst (snd c)) (snd (snd c))
               \<and> write_site K nDim nParity dagger asy (fst c) arg (fst (snd c)) (snd (snd c)) = Some s))"
    by (auto simp: D'_def comp_def site_def kt_def idx_def par_def)
  have stepx: "run_calls K nDim nParity dagger asy True (c # cs) (arg\<lparr>arg_out := fx\<rparr>)
                 = run_calls K nDim nParity dagger asy True cs (arg\<lparr>arg_out := tx fx\<rparr>)"
    unfolding run_calls_Cons tx_def kt_def idx_def par_def ..
  have stepn: "run_calls K nDim nParity dagger asy False (c # cs) (arg\<lparr>arg_out := fn\<rparr>)
                 = run_calls K nDim nParity dagger asy False cs (arg\<lparr>arg_out := tn fn\<rparr>)"
    unfolding run_calls_Cons tn_def kt_def idx_def par_def ..
  show ?case
    unfolding stepx stepn cond [symmetric] by (rule IH)
qed


lemma gather_active_flag:
  "snd (forward_gather K nParity dagger kt arg coord x_cb par idx thread_dim d s)
     = snd (fwd_ghost K kt arg coord thread_dim d (snd s))"
  "snd (backward_gather K nParity dagger kt arg coord x_cb par idx thread_dim d s)
     = snd (bwd_ghost K kt arg coord thread_dim d (snd s))"
proof -
  show "snd (forward_gather K nParity dagger kt arg coord x_cb par idx thread_dim d s)
     = snd (fwd_ghost K kt arg coord thread_dim d (snd s))"
    by (cases "select_path K kt d (fst (fwd_ghost K kt arg coord thread_dim d (snd s)))")
       (simp_all add: forward_gather_def Let_def)
  show "snd (backward_gather K nParity dagger kt arg coord x_cb par idx thread_dim d s)
     = snd (bwd_ghost K kt arg coord thread_dim d (snd s))"
    by (cases "select_path K kt d (fst (bwd_ghost K kt arg coord thread_dim d (snd s)))")
       (simp_all add: backward_gather_def Let_def)
qed

lemma gathers_keep_active:
  assumes "\<And>td d coord. snd (isActive K kt True td d coord arg)"
  shows "snd s \<Longrightarrow> snd (forward_gather K nParity dagger kt arg coord x_cb par idx thread_dim d s)"
    and "snd s \<Longrightarrow> snd (backward_gather K nParity dagger kt arg coord x_cb par idx thread_dim d s)"
  using assms by (simp_all add: gather_active_flag fwd_ghost_def bwd_ghost_def)

lemma applyWilsonTM_keeps_active:
  assumes "\<And>td d coord. snd (isActive K kt True td d coord arg)"
  shows "snd (applyWilsonTM K nDim nParity dagger kt acc arg coord x_cb par idx thread_dim True)"
proof -
  have "snd s \<Longrightarrow>
        snd (fold (\<lambda>d s. backward_gather K nParity dagger kt arg coord x_cb par idx thread_dim d
                            (forward_gather K nParity dagger kt arg coord x_cb par idx thread_dim d s))
                  ds s)" for ds s
    by (induction ds arbitrary: s) (simp_all add: gathers_keep_active [OF assms])
  then show ?thesis by (simp add: applyWilsonTM_def)
qed

lemma demo_active:
  assumes "kt \<noteq> EXTERIOR_KERNEL_ALL"
  shows "st_active (before_finalize demo nDim nParity dg asy kt arg idx par)"
proof -
  have a: "snd (applyWilsonTM demo nDim nParity d' kt acc arg coord x_cb par idx td True)"
    for acc coord x_cb td d'
    by (rule applyWilsonTM_keeps_active) (simp add: demo_collaborators)
  have b: "snd (applyWilsonTM demo_base nDim nParity d' kt acc (arg\<lparr>arg_a := 1, arg_b := 0\<rparr>)
                  coord x_cb par idx td True)"
    for acc coord x_cb td d'
    by (rule applyWilsonTM_keeps_active) (simp add: demo_base_def)
  have c: "applyWilson demo nDim nParity d' kt acc arg coord x_cb par idx td True
          = applyWilsonTM demo_base nDim nParity d' kt acc (arg\<lparr>arg_a := 1, arg_b := 0\<rparr>)
              coord x_cb par idx td True" for acc coord x_cb td d'
    by (simp add: demo_def)
  have "snd (gather demo nDim nParity dg asy kt arg coord x_cb par idx td True)" for coord x_cb td
    unfolding gather_def by (simp add: a b c)
  with assms show ?thesis by (simp add: before_finalize_def Let_def)
qed

lemma demo_completes:
  assumes "kt \<noteq> EXTERIOR_KERNEL_ALL"
  shows "completes demo nDim nParity dg asy kt arg idx par = demo_isComplete kt arg (demo_coord idx par)"
proof -
  have "st_coord (before_finalize demo nDim nParity dg asy kt arg idx par) = demo_coord idx par"
    by (simp add: before_finalize_def Let_def demo_collaborators)
  then show ?thesis
    by (simp add: completes_def Let_def demo_active [OF assms] demo_collaborators)
qed

lemma demo_write_site_single:
  assumes "kt \<noteq> EXTERIOR_KERNEL_ALL"
  shows "write_site demo nDim 1 dg asy kt arg idx par = Some (idx, 0)"
  using assms by (simp add: write_site_def before_finalize_def Let_def demo_collaborators)

lemma upto_1_3: "[1..3] = [1, 2, 3::int]" and upto_2_3: "[2..3] = [2, 3::int]"
  by (simp_all add: upto.simps)

lemma demo_pass_completes:
  "\<not> completes demo nDim nParity dg asy INTERIOR_KERNEL (demo_arg xp dg' asy') 0 0"
  "completes demo nDim nParity dg asy INTERIOR_KERNEL (demo_arg xp dg' asy') 42 0"
  "\<not> completes demo nDim nParity dg asy (EXTERIOR_KERNEL_DIM 0) (demo_arg xp dg' asy') 0 0"
  "\<not> completes demo nDim nParity dg asy (EXTERIOR_KERNEL_DIM 1) (demo_arg xp dg' asy') 0 0"
  "\<not> completes demo nDim nParity dg asy (EXTERIOR_KERNEL_DIM 2) (demo_arg xp dg' asy') 0 0"
  "completes demo nDim nParity dg asy (EXTERIOR_KERNEL_DIM 3) (demo_arg xp dg' asy') 0 0"
  by (auto simp: demo_completes demo_coord_0_0 demo_coord_42_0 on_face_def demo_arg_fields
        upto_0_3 upto_1_3 upto_2_3)


lemma xpay_single_pass:
  assumes "completes K nDim nParity dagger asy kt arg idx par"
  shows "arg_out (twistedMass K nDim nParity dagger asy True kt arg idx par)
           = (let st = before_finalize K nDim nParity dagger asy kt arg idx par;
                  site = (st_x_cb st, st_my_spinor_parity st);
                  without_x = arg_out (twistedMass K nDim nParity dagger asy False kt arg idx par)
              in without_x(site := plus_v K (without_x site) (arg_x arg site)))"
  using assms by (simp add: xpay_call Let_def)

lemma xpay_two_passes:
  assumes "\<not> completes K nDim nParity dagger asy kt1 arg idx1 par1"
    and "completes K nDim nParity dagger asy kt2
           (twistedMass K nDim nParity dagger asy False kt1 arg idx1 par1) idx2 par2"
  shows "arg_out (twistedMass K nDim nParity dagger asy True kt2
                    (twistedMass K nDim nParity dagger asy True kt1 arg idx1 par1) idx2 par2)
           = (let arg1 = twistedMass K nDim nParity dagger asy False kt1 arg idx1 par1;
                  st = before_finalize K nDim nParity dagger asy kt2 arg1 idx2 par2;
                  site = (st_x_cb st, st_my_spinor_parity st);
                  without_x = arg_out (twistedMass K nDim nParity dagger asy False kt2 arg1 idx2 par2)
              in without_x(site := plus_v K (without_x site) (arg_x arg site)))"
proof -
  define arg1 where "arg1 = twistedMass K nDim nParity dagger asy False kt1 arg idx1 par1"
  have first: "twistedMass K nDim nParity dagger asy True kt1 arg idx1 par1 = arg1"
    using assms(1) by (simp add: xpay_call Let_def arg1_def)
  obtain g where "arg1 = arg\<lparr>arg_out := g\<rparr>"
    unfolding arg1_def using twistedMass_out_only by blast
  then have x: "arg_x arg1 = arg_x arg" by simp
  show ?thesis
    unfolding first arg1_def [symmetric]
    using xpay_single_pass [OF assms(2) [folded arg1_def]] by (simp add: Let_def x)
qed

text \<open>
  C7. The operator's output with xpay is its output without xpay plus the pass-through
  field, at every site the operator completes: for a pass that completes the site; for a
  first pass that leaves the site incomplete followed by the pass that completes it; and
  for any sequence of calls of \<^verbatim>\<open>twistedMass\<close> (passes, sites and parities in the order the
  caller runs them) in which no call writes a site that an earlier call completed, the
  collaborators not reading the output field.
\<close>

theorem xpay_adds_pass_through:
  "(completes K nDim nParity dagger asy kt arg idx par \<longrightarrow>
      arg_out (twistedMass K nDim nParity dagger asy True kt arg idx par)
        = (let st = before_finalize K nDim nParity dagger asy kt arg idx par;
               site = (st_x_cb st, st_my_spinor_parity st);
               without_x = arg_out (twistedMass K nDim nParity dagger asy False kt arg idx par)
           in without_x(site := plus_v K (without_x site) (arg_x arg site))))
   \<and> (\<not> completes K nDim nParity dagger asy kt_a arg idx_a par_a
        \<and> completes K nDim nParity dagger asy kt_b
             (twistedMass K nDim nParity dagger asy False kt_a arg idx_a par_a) idx_b par_b \<longrightarrow>
      arg_out (twistedMass K nDim nParity dagger asy True kt_b
                 (twistedMass K nDim nParity dagger asy True kt_a arg idx_a par_a) idx_b par_b)
        = (let arg1 = twistedMass K nDim nParity dagger asy False kt_a arg idx_a par_a;
               st = before_finalize K nDim nParity dagger asy kt_b arg1 idx_b par_b;
               site = (st_x_cb st, st_my_spinor_parity st);
               without_x = arg_out (twistedMass K nDim nParity dagger asy False kt_b arg1 idx_b par_b)
           in without_x(site := plus_v K (without_x site) (arg_x arg site))))
   \<and> ((\<forall>kt f. getCoords K kt (arg\<lparr>arg_out := f\<rparr>) = getCoords K kt arg)
        \<and> (\<forall>kt f a td d coord. isActive K kt a td d coord (arg\<lparr>arg_out := f\<rparr>)
                                   = isActive K kt a td d coord arg)
        \<and> (\<forall>kt f. isComplete K kt (arg\<lparr>arg_out := f\<rparr>) = isComplete K kt arg)
        \<and> (\<forall>kt f acc. applyWilson K nDim nParity dagger kt acc (arg\<lparr>arg_out := f\<rparr>)
                         = applyWilson K nDim nParity dagger kt acc arg)
        \<and> final_writes K nDim nParity dagger asy arg calls
        \<and> (\<exists>c \<in> set calls.
               completes K nDim nParity dagger asy (fst c) arg (fst (snd c)) (snd (snd c))
             \<and> write_site K nDim nParity dagger asy (fst c) arg (fst (snd c)) (snd (snd c)) = Some s) \<longrightarrow>
      arg_out (run_calls K nDim nParity dagger asy True calls arg) s
        = plus_v K (arg_out (run_calls K nDim nParity dagger asy False calls arg) s) (arg_x arg s))"
proof (intro conjI impI)
  assume "completes K nDim nParity dagger asy kt arg idx par"
  then show "arg_out (twistedMass K nDim nParity dagger asy True kt arg idx par)
        = (let st = before_finalize K nDim nParity dagger asy kt arg idx par;
               site = (st_x_cb st, st_my_spinor_parity st);
               without_x = arg_out (twistedMass K nDim nParity dagger asy False kt arg idx par)
           in without_x(site := plus_v K (without_x site) (arg_x arg site)))"
    by (rule xpay_single_pass)
next
  assume "\<not> completes K nDim nParity dagger asy kt_a arg idx_a par_a
        \<and> completes K nDim nParity dagger asy kt_b
             (twistedMass K nDim nParity dagger asy False kt_a arg idx_a par_a) idx_b par_b"
  then show "arg_out (twistedMass K nDim nParity dagger asy True kt_b
                 (twistedMass K nDim nParity dagger asy True kt_a arg idx_a par_a) idx_b par_b)
        = (let arg1 = twistedMass K nDim nParity dagger asy False kt_a arg idx_a par_a;
               st = before_finalize K nDim nParity dagger asy kt_b arg1 idx_b par_b;
               site = (st_x_cb st, st_my_spinor_parity st);
               without_x = arg_out (twistedMass K nDim nParity dagger asy False kt_b arg1 idx_b par_b)
           in without_x(site := plus_v K (without_x site) (arg_x arg site)))"
    using xpay_two_passes by blast
next
  assume h: "(\<forall>kt f. getCoords K kt (arg\<lparr>arg_out := f\<rparr>) = getCoords K kt arg)
        \<and> (\<forall>kt f a td d coord. isActive K kt a td d coord (arg\<lparr>arg_out := f\<rparr>)
                                   = isActive K kt a td d coord arg)
        \<and> (\<forall>kt f. isComplete K kt (arg\<lparr>arg_out := f\<rparr>) = isComplete K kt arg)
        \<and> (\<forall>kt f acc. applyWilson K nDim nParity dagger kt acc (arg\<lparr>arg_out := f\<rparr>)
                         = applyWilson K nDim nParity dagger kt acc arg)
        \<and> final_writes K nDim nParity dagger asy arg calls
        \<and> (\<exists>c \<in> set calls.
               completes K nDim nParity dagger asy (fst c) arg (fst (snd c)) (snd (snd c))
             \<and> write_site K nDim nParity dagger asy (fst c) arg (fst (snd c)) (snd (snd c)) = Some s)"
  have inv: "arg_out (run_calls K nDim nParity dagger asy True calls (arg\<lparr>arg_out := arg_out arg\<rparr>)) s
       = (if s \<in> {} \<or> (\<exists>c \<in> set calls.
                 completes K nDim nParity dagger asy (fst c) arg (fst (snd c)) (snd (snd c))
               \<and> write_site K nDim nParity dagger asy (fst c) arg (fst (snd c)) (snd (snd c)) = Some s)
          then plus_v K (arg_out (run_calls K nDim nParity dagger asy False calls (arg\<lparr>arg_out := arg_out arg\<rparr>)) s)
                 (arg_x arg s)
          else arg_out (run_calls K nDim nParity dagger asy False calls (arg\<lparr>arg_out := arg_out arg\<rparr>)) s)"
  proof (rule run_calls_xpay_invariant)
    show "getCoords K kt (arg\<lparr>arg_out := f\<rparr>) = getCoords K kt arg" for kt f using h by blast
    show "isActive K kt a td d coord (arg\<lparr>arg_out := f\<rparr>) = isActive K kt a td d coord arg"
      for kt f a td d coord using h by blast
    show "isComplete K kt (arg\<lparr>arg_out := f\<rparr>) = isComplete K kt arg" for kt f using h by blast
    show "applyWilson K nDim nParity dagger kt acc (arg\<lparr>arg_out := f\<rparr>)
            = applyWilson K nDim nParity dagger kt acc arg" for kt f acc using h by blast
    show "final_writes K nDim nParity dagger asy arg calls" using h by blast
    show "\<forall>s. arg_out arg s = (if s \<in> {} then plus_v K (arg_out arg s) (arg_x arg s) else arg_out arg s)"
      by simp
    show "\<forall>c \<in> set calls. \<forall>s \<in> {}.
            write_site K nDim nParity dagger asy (fst c) arg (fst (snd c)) (snd (snd c)) \<noteq> Some s"
      by simp
  qed
  from h have "\<exists>c \<in> set calls.
               completes K nDim nParity dagger asy (fst c) arg (fst (snd c)) (snd (snd c))
             \<and> write_site K nDim nParity dagger asy (fst c) arg (fst (snd c)) (snd (snd c)) = Some s"
    by blast
  with inv show "arg_out (run_calls K nDim nParity dagger asy True calls arg) s
        = plus_v K (arg_out (run_calls K nDim nParity dagger asy False calls arg) s) (arg_x arg s)"
    by simp
qed


lemma demo_site:
  "st_x_cb (before_finalize demo nDim 1 dg asy kt arg idx par) = idx"
  "st_my_spinor_parity (before_finalize demo nDim 1 dg asy kt arg idx par) = 0"
  by (simp_all add: before_finalize_def Let_def demo_collaborators)

lemma demo_site_42_without_xpay:
  "arg_out (twistedMass demo 4 1 False False False INTERIOR_KERNEL (demo_arg True False False) 42 0)
     (42, 0) = Complex 16 (- 8)"
  by (simp add: twistedMass_def final_out_def finalize_def twist_rotation_def Let_def
        demo_interior_site_42 demo_site_42_complete demo_arg_fields demo_arith complex_eq_iff)

theorem xpay_adds_pass_through_witness:
  "arg_out (twistedMass demo 4 1 False False True INTERIOR_KERNEL (demo_arg True False False) 42 0)
     (42, 0) = Complex 23 (- 8)
   \<and> arg_out (twistedMass demo 4 1 False False True (EXTERIOR_KERNEL_DIM 3)
               (twistedMass demo 4 1 False False True INTERIOR_KERNEL (demo_arg True False False) 0 0)
               0 0) (0, 0)
     = arg_out (twistedMass demo 4 1 False False False (EXTERIOR_KERNEL_DIM 3)
                 (twistedMass demo 4 1 False False False INTERIOR_KERNEL (demo_arg True False False) 0 0)
                 0 0) (0, 0) + 7
   \<and> arg_out (run_calls demo 4 1 False False True
                [(INTERIOR_KERNEL, 0, 0), (INTERIOR_KERNEL, 42, 0), (EXTERIOR_KERNEL_DIM 0, 0, 0),
                 (EXTERIOR_KERNEL_DIM 1, 0, 0), (EXTERIOR_KERNEL_DIM 2, 0, 0),
                 (EXTERIOR_KERNEL_DIM 3, 0, 0)] (demo_arg True False False)) (0, 0)
     = arg_out (run_calls demo 4 1 False False False
                [(INTERIOR_KERNEL, 0, 0), (INTERIOR_KERNEL, 42, 0), (EXTERIOR_KERNEL_DIM 0, 0, 0),
                 (EXTERIOR_KERNEL_DIM 1, 0, 0), (EXTERIOR_KERNEL_DIM 2, 0, 0),
                 (EXTERIOR_KERNEL_DIM 3, 0, 0)] (demo_arg True False False)) (0, 0) + 7
   \<and> arg_out (run_calls demo 4 1 False False True
                [(INTERIOR_KERNEL, 0, 0), (INTERIOR_KERNEL, 42, 0), (EXTERIOR_KERNEL_DIM 0, 0, 0),
                 (EXTERIOR_KERNEL_DIM 1, 0, 0), (EXTERIOR_KERNEL_DIM 2, 0, 0),
                 (EXTERIOR_KERNEL_DIM 3, 0, 0)] (demo_arg True False False)) (42, 0)
     = arg_out (run_calls demo 4 1 False False False
                [(INTERIOR_KERNEL, 0, 0), (INTERIOR_KERNEL, 42, 0), (EXTERIOR_KERNEL_DIM 0, 0, 0),
                 (EXTERIOR_KERNEL_DIM 1, 0, 0), (EXTERIOR_KERNEL_DIM 2, 0, 0),
                 (EXTERIOR_KERNEL_DIM 3, 0, 0)] (demo_arg True False False)) (42, 0) + 7"
proof -
  define A where "A = demo_arg True False False"
  define calls where
    "calls = [(INTERIOR_KERNEL, 0, 0), (INTERIOR_KERNEL, 42, 0), (EXTERIOR_KERNEL_DIM 0, 0, 0),
              (EXTERIOR_KERNEL_DIM 1, 0, 0), (EXTERIOR_KERNEL_DIM 2, 0, 0),
              (EXTERIOR_KERNEL_DIM 3, 0::int, 0::int)]"
  have c3: "completes demo 4 1 False False (EXTERIOR_KERNEL_DIM 3)
              (twistedMass demo 4 1 False False False INTERIOR_KERNEL A 0 0) 0 0"
    by (simp add: demo_completes)
  have fw: "final_writes demo 4 1 False False A calls"
    by (simp add: calls_def A_def demo_pass_completes demo_write_site_single)
  have one: "arg_out (twistedMass demo 4 1 False False True INTERIOR_KERNEL A 42 0) (42, 0)
               = Complex 23 (- 8)"
    using xpay_adds_pass_through [where K = demo and nDim = 4 and nParity = 1 and dagger = False
        and asy = False and kt = INTERIOR_KERNEL and arg = A and idx = 42 and par = 0]
    by (simp add: A_def demo_pass_completes Let_def demo_site demo_site_42_without_xpay
          demo_arg_fields demo_arith complex_eq_iff)
  have two: "arg_out (twistedMass demo 4 1 False False True (EXTERIOR_KERNEL_DIM 3)
               (twistedMass demo 4 1 False False True INTERIOR_KERNEL A 0 0) 0 0) (0, 0)
     = arg_out (twistedMass demo 4 1 False False False (EXTERIOR_KERNEL_DIM 3)
                 (twistedMass demo 4 1 False False False INTERIOR_KERNEL A 0 0) 0 0) (0, 0) + 7"
    using xpay_adds_pass_through [where K = demo and nDim = 4 and nParity = 1 and dagger = False
        and asy = False and arg = A and kt_a = INTERIOR_KERNEL and idx_a = 0 and par_a = 0
        and kt_b = "EXTERIOR_KERNEL_DIM 3" and idx_b = 0 and par_b = 0] c3
    by (simp add: A_def demo_pass_completes Let_def demo_site demo_arg_fields demo_arith)
  have seq: "arg_out (run_calls demo 4 1 False False True calls A) s
               = arg_out (run_calls demo 4 1 False False False calls A) s + 7"
    if "s = (0, 0) \<or> s = (42, 0)" for s
  proof -
    have "\<exists>c \<in> set calls.
            completes demo 4 1 False False (fst c) A (fst (snd c)) (snd (snd c))
          \<and> write_site demo 4 1 False False (fst c) A (fst (snd c)) (snd (snd c)) = Some s"
      using that
      by (auto simp: calls_def A_def demo_pass_completes demo_write_site_single)
    then show ?thesis
      using xpay_adds_pass_through [where K = demo and nDim = 4 and nParity = 1 and dagger = False
          and asy = False and arg = A and calls = calls and s = s] fw
      by (simp add: demo_reads_no_output) (simp add: A_def demo_arg_fields demo_arith)
  qed
  from one two seq [of "(0, 0)"] seq [of "(42, 0)"] show ?thesis
    unfolding A_def calls_def by simp
qed

end
